theory Spec2Isabelle
  imports Main
begin

section \<open>JavaScript values\<close>

text \<open>
  The values that reach \<^verbatim>\<open>connect.ts\<close> from outside (emitted errors, thrown
  failures, results of collaborators) are untyped at run time. They are modelled by a
  small universe of JavaScript values: the primitives and plain objects with data
  properties. Callable properties, accessors and arrays are outside this universe.
  Strings are lists of 8-bit characters. The one case mapping defined here is the ASCII
  folding of the regular expression; \<^verbatim>\<open>String.prototype.toUpperCase\<close> is a
  parameter.
\<close>

datatype jsval =
    JUndefined
  | JNull
  | JBool bool
  | JNum int
  | JStr string
  | JObj "(string \<times> jsval) list"

text \<open>The value thrown by the runtime when a property of \<^verbatim>\<open>undefined\<close> or
  \<^verbatim>\<open>null\<close> is read, or when a non-function is called.\<close>

definition TypeError :: "string \<Rightarrow> jsval" where
  "TypeError msg = JObj [(''name'', JStr ''TypeError''), (''message'', JStr msg)]"

text \<open>ToBoolean.\<close>

fun truthy :: "jsval \<Rightarrow> bool" where
  "truthy JUndefined = False"
| "truthy JNull = False"
| "truthy (JBool b) = b"
| "truthy (JNum n) = (n \<noteq> 0)"
| "truthy (JStr s) = (s \<noteq> [])"
| "truthy (JObj ps) = True"

text \<open>
  Property read \<^verbatim>\<open>v.k\<close>, for the property names \<^verbatim>\<open>code\<close> and
  \<^verbatim>\<open>message\<close> the source reads: a \<^verbatim>\<open>TypeError\<close> on
  \<^verbatim>\<open>undefined\<close> and \<^verbatim>\<open>null\<close>, the stored value on an object that has
  the property, \<^verbatim>\<open>undefined\<close> otherwise (no primitive wrapper prototype defines
  either name).
\<close>

fun get_prop :: "jsval \<Rightarrow> string \<Rightarrow> jsval + jsval" where
  "get_prop JUndefined k = Inl (TypeError ''Cannot read properties of undefined'')"
| "get_prop JNull k = Inl (TypeError ''Cannot read properties of null'')"
| "get_prop (JObj ps) k = Inr (case map_of ps k of None \<Rightarrow> JUndefined | Some v \<Rightarrow> v)"
| "get_prop v k = Inr JUndefined"

text \<open>\<^verbatim>\<open>String.prototype.includes\<close>: the second string occurs contiguously in the
  first, compared character by character.\<close>

fun starts_with :: "string \<Rightarrow> string \<Rightarrow> bool" where
  "starts_with s [] = True"
| "starts_with [] (p # ps) = False"
| "starts_with (c # cs) (p # ps) = (c = p \<and> starts_with cs ps)"

fun str_includes :: "string \<Rightarrow> string \<Rightarrow> bool" where
  "str_includes [] p = starts_with [] p"
| "str_includes (c # cs) p = (starts_with (c # cs) p \<or> str_includes cs p)"

text \<open>
  The optional call \<^verbatim>\<open>m?.includes(p)\<close>: \<^verbatim>\<open>undefined\<close> when \<open>m\<close> is
  \<^verbatim>\<open>undefined\<close> or \<^verbatim>\<open>null\<close>, the boolean answer on a string, and a
  \<^verbatim>\<open>TypeError\<close> on every other value of the universe, none of which has a
  callable \<^verbatim>\<open>includes\<close>.
\<close>

fun opt_includes :: "jsval \<Rightarrow> string \<Rightarrow> jsval + jsval" where
  "opt_includes JUndefined p = Inr JUndefined"
| "opt_includes JNull p = Inr JUndefined"
| "opt_includes (JStr s) p = Inr (JBool (str_includes s p))"
| "opt_includes v p = Inl (TypeError ''err.message.includes is not a function'')"

section \<open>Events\<close>

record poolOptions =
  connectionString :: "string option"
  other_options :: "(string \<times> jsval) list"

datatype client =
    pg_Pool poolOptions
  | VercelPool poolOptions
  | sql

record options =
  hotReload :: bool

type_synonym connection = nat

datatype task = Retry

text \<open>
  What the supervisor does to the outside world, in program order. An awaited call
  appears through the events of the callee; a call whose promise is discarded
  (\<^verbatim>\<open>void connectWithReconnect(...)\<close>) appears as the single event
  \<open>Spawn_connectWithReconnect\<close>, and what the spawned call does is no part of the
  caller's result.
\<close>

datatype event =
    Client_selected client
  | Client_connect
  | On_error connection
  | Set_timeout nat task
  | Spawn_connectWithReconnect bool
  | Logger_info string
  | Logger_error jsval string
  | Drop_database
  | Create_database
  | Call_connect options
  | Reject_initializing
  | Process_exit nat
  | Create_extensions
  | Push_dev_schema
  | Resolve_initializing
  | Migrate "jsval list"

section \<open>The error listener (connect.ts, lines 38-51)\<close>

text \<open>
  The condition of the \<^verbatim>\<open>if\<close> at lines 41-45, with the evaluation order and the
  short circuit of \<^verbatim>\<open>||\<close>: \<open>Inl\<close> is the exception the evaluation raises.
  \<open>message_includes err p\<close> is \<^verbatim>\<open>err.message?.includes(p)\<close>.
\<close>

definition message_includes :: "jsval \<Rightarrow> string \<Rightarrow> jsval + jsval" where
  "message_includes err p =
     (case get_prop err ''message'' of
        Inl e \<Rightarrow> Inl e
      | Inr m \<Rightarrow> opt_includes m p)"

definition is_connection_error :: "jsval \<Rightarrow> jsval + bool" where
  "is_connection_error err =
     (case get_prop err ''code'' of
        Inl e \<Rightarrow> Inl e
      | Inr code \<Rightarrow>
          if code = JStr ''ECONNRESET'' then Inr True
          else (case message_includes err ''Connection terminated unexpectedly'' of
                  Inl e \<Rightarrow> Inl e
                | Inr r1 \<Rightarrow>
                    if truthy r1 then Inr True
                    else (case message_includes err ''connection terminated'' of
                            Inl e \<Rightarrow> Inl e
                          | Inr r2 \<Rightarrow> Inr (truthy r2))))"

text \<open>
  The listener: the \<^verbatim>\<open>try\<close> block runs the condition and, when it holds, starts
  \<^verbatim>\<open>connectWithReconnect\<close> with \<^verbatim>\<open>reconnect: true\<close> without awaiting it;
  the \<^verbatim>\<open>catch\<close> block is empty. The result is the list of events and what the
  listener hands to its caller: \<open>Inr ()\<close> for a normal return, \<open>Inl e\<close> for an
  exception \<open>e\<close> that escapes.
\<close>

definition error_listener :: "jsval \<Rightarrow> event list \<times> (jsval + unit)" where
  "error_listener err =
     (case is_connection_error err of
        Inl ignore \<Rightarrow> ([], Inr ())
      | Inr True \<Rightarrow> ([Spawn_connectWithReconnect True], Inr ())
      | Inr False \<Rightarrow> ([], Inr ()))"

section \<open>The reconnecting connect (connect.ts, lines 11-52)\<close>

text \<open>
  \<^verbatim>\<open>connectWithReconnect({adapter, client, reconnect})\<close>. The client is
  represented by what its \<^verbatim>\<open>connect()\<close> answers to this call: \<open>Inl e\<close> when the
  promise rejects with \<open>e\<close>, \<open>Inr None\<close> when it resolves to a falsy value and
  \<open>Inr (Some c)\<close> when it resolves to the connection \<open>c\<close>. The result is the events
  of the call and \<open>Inl e\<close> when the call rejects with \<open>e\<close>, \<open>Inr ()\<close> when it
  returns. \<open>Set_timeout 1000 Retry\<close> is the \<^verbatim>\<open>setTimeout\<close> of lines 28-31,
  whose callback is \<open>Retry\<close>.
\<close>

definition attach_listener :: "event list \<Rightarrow> connection option \<Rightarrow> event list \<times> (jsval + unit)" where
  "attach_listener evs result =
     (case result of
        None \<Rightarrow> (evs, Inr ())
      | Some c \<Rightarrow> (evs @ [On_error c], Inr ()))"

definition connectWithReconnect ::
  "(jsval + connection option) \<Rightarrow> bool \<Rightarrow> event list \<times> (jsval + unit)" where
  "connectWithReconnect client_connect reconnect =
     (if \<not> reconnect then
        (case client_connect of
           Inl e \<Rightarrow> ([Client_connect], Inl e)
         | Inr result \<Rightarrow> attach_listener [Client_connect] result)
      else
        (case client_connect of
           Inl ignore \<Rightarrow> attach_listener [Client_connect, Set_timeout 1000 Retry] None
         | Inr result \<Rightarrow> attach_listener [Client_connect] result))"

text \<open>
  The timers and the calls they start. A state of the event loop holds the clock (in
  milliseconds), the pending timers with the time each is due, the number of
  \<^verbatim>\<open>client.connect()\<close> calls made so far, and the events with the time of each.
  The \<open>k\<close>-th call of \<^verbatim>\<open>client.connect()\<close> answers \<open>answers k\<close>. Only timers
  advance the clock: the time a connect attempt itself takes is not counted.
\<close>

record loop =
  now :: nat
  timers :: "(nat \<times> task) list"
  calls :: nat
  history :: "(nat \<times> event) list"

fun timers_of :: "nat \<Rightarrow> event list \<Rightarrow> (nat \<times> task) list" where
  "timers_of t [] = []"
| "timers_of t (Set_timeout d k # evs) = (t + d, k) # timers_of t evs"
| "timers_of t (e # evs) = timers_of t evs"

definition spawn_reconnect :: "(nat \<Rightarrow> jsval + connection option) \<Rightarrow> loop \<Rightarrow> loop" where
  "spawn_reconnect answers s =
     (let evs = Spawn_connectWithReconnect True
                  # fst (connectWithReconnect (answers (calls s)) True)
      in s\<lparr>timers := timers s @ timers_of (now s) evs,
           calls := Suc (calls s),
           history := history s @ map (Pair (now s)) evs\<rparr>)"

text \<open>The callback of lines 28-31.\<close>

fun run_task :: "(nat \<Rightarrow> jsval + connection option) \<Rightarrow> task \<Rightarrow> loop \<Rightarrow> loop" where
  "run_task answers Retry s =
     spawn_reconnect answers
       (s\<lparr>history := history s @ [(now s, Logger_info ''Reconnecting to postgres'')]\<rparr>)"

fun earliest :: "(nat \<times> task) list \<Rightarrow> (nat \<times> task) option" where
  "earliest [] = None"
| "earliest (x # xs) =
     (case earliest xs of
        None \<Rightarrow> Some x
      | Some y \<Rightarrow> if fst y < fst x then Some y else Some x)"

definition fire :: "(nat \<Rightarrow> jsval + connection option) \<Rightarrow> loop \<Rightarrow> loop option" where
  "fire answers s =
     (case earliest (timers s) of
        None \<Rightarrow> None
      | Some (due, k) \<Rightarrow>
          Some (run_task answers k
                  (s\<lparr>now := max (now s) due, timers := remove1 (due, k) (timers s)\<rparr>)))"

fun run :: "nat \<Rightarrow> (nat \<Rightarrow> jsval + connection option) \<Rightarrow> loop \<Rightarrow> loop" where
  "run 0 answers s = s"
| "run (Suc n) answers s =
     (case fire answers s of
        None \<Rightarrow> s
      | Some s' \<Rightarrow> run n answers s')"

section \<open>The top-level connect (connect.ts, lines 54-151)\<close>

subsection \<open>The adapter, the environment and the collaborators\<close>

type_synonym js_object = "string \<rightharpoonup> jsval"

datatype drizzle_db = Drizzle client jsval js_object

datatype callback = Callback

text \<open>
  The fields of \<^verbatim>\<open>this\<close> that \<^verbatim>\<open>connect\<close> reads or writes. A field that
  may be absent is an option; \<open>rejectInitializing\<close> and \<open>resolveInitializing\<close> are
  \<open>Some Callback\<close> exactly when \<^verbatim>\<open>typeof\<close> gives \<^verbatim>\<open>'function'\<close>.
\<close>

record adapter =
  pgSchema :: jsval
  tables :: js_object
  relations :: js_object
  enums :: js_object
  schema :: js_object
  logger :: jsval
  poolOptions :: "poolOptions option"
  forceUseVercelPostgres :: bool
  drizzle :: "drizzle_db option"
  schemaName :: "string option"
  disableCreateDatabase :: bool
  push :: "bool option"
  rejectInitializing :: "callback option"
  resolveInitializing :: "callback option"
  prodMigrations :: "jsval list option"

text \<open>\<^verbatim>\<open>process.env\<close>: the four variables the source reads.\<close>

record process_env =
  POSTGRES_URL :: "string option"
  PAYLOAD_DROP_DATABASE :: "string option"
  NODE_ENV :: "string option"
  PAYLOAD_MIGRATING :: "string option"

text \<open>
  What is called and not defined in \<^verbatim>\<open>connect.ts\<close> is a parameter.
  \<open>URL_hostname s\<close> is \<^verbatim>\<open>new URL(s).hostname\<close>: \<open>Inr\<close> the host name, or
  \<open>Inl\<close> the error the constructor throws. \<open>toUpperCase s\<close> is
  \<^verbatim>\<open>s.toUpperCase()\<close>, whose result can be longer than \<open>s\<close>. The awaited
  collaborators answer by
  attempt: the outermost call of \<^verbatim>\<open>connect\<close> is attempt \<open>0\<close> and each
  recursive call is the next attempt; \<open>Inl e\<close> is a rejection with \<open>e\<close>. The
  loggers, \<^verbatim>\<open>drizzle(...)\<close>, the pool constructors and the two initializing
  callbacks are taken to return normally, and what a collaborator does to the adapter
  is not modelled.
\<close>

record world =
  URL_hostname :: "string \<Rightarrow> jsval + string"
  toUpperCase :: "string \<Rightarrow> string"
  client_connect :: "nat \<Rightarrow> jsval + connection option"
  dropDatabase :: "nat \<Rightarrow> jsval + unit"
  createDatabase :: "nat \<Rightarrow> jsval + jsval"
  createExtensions :: "nat \<Rightarrow> jsval + unit"
  pushDevSchema :: "nat \<Rightarrow> jsval + unit"
  migrate :: "nat \<Rightarrow> jsval + unit"

datatype outcome = Returned | Threw jsval | Exited nat

subsection \<open>Lines 62-67: the schema\<close>

text \<open>An object spread lets the later source win on a shared key, as \<open>++\<close> does.\<close>

definition assemble_schema :: "adapter \<Rightarrow> js_object" where
  "assemble_schema a = [''pgSchema'' \<mapsto> pgSchema a] ++ tables a ++ relations a ++ enums a"

subsection \<open>Lines 73-88: the choice of the client\<close>

text \<open>\<^verbatim>\<open>this.poolOptions?.connectionString ?? process.env.POSTGRES_URL\<close>\<close>

definition resolve_connectionString :: "process_env \<Rightarrow> adapter \<Rightarrow> string option" where
  "resolve_connectionString env a =
     (case poolOptions a of
        None \<Rightarrow> POSTGRES_URL env
      | Some po \<Rightarrow>
          (case connectionString po of
             None \<Rightarrow> POSTGRES_URL env
           | Some cs \<Rightarrow> Some cs))"

text \<open>\<^verbatim>\<open>this.poolOptions ? new VercelPool(this.poolOptions) : sql\<close>\<close>

definition hosted_client :: "adapter \<Rightarrow> client" where
  "hosted_client a = (case poolOptions a of None \<Rightarrow> sql | Some po \<Rightarrow> VercelPool po)"

text \<open>\<^verbatim>\<open>new pg.Pool(this.poolOptions ?? {connectionString})\<close>\<close>

definition local_client :: "adapter \<Rightarrow> string \<Rightarrow> client" where
  "local_client a cs =
     pg_Pool (case poolOptions a of
                None \<Rightarrow> \<lparr>connectionString = Some cs, other_options = []\<rparr>
              | Some po \<Rightarrow> po)"

text \<open>
  The \<^verbatim>\<open>if\<close> of lines 76-88. The conjunction is evaluated from the left, so the
  URL is parsed only when the adapter does not force the hosted client and the
  connection string is truthy, that is, defined and not empty.
\<close>

definition select_client :: "world \<Rightarrow> process_env \<Rightarrow> adapter \<Rightarrow> jsval + client" where
  "select_client w env a =
     (if forceUseVercelPostgres a then Inr (hosted_client a)
      else
        (case resolve_connectionString env a of
           None \<Rightarrow> Inr (hosted_client a)
         | Some cs \<Rightarrow>
             if cs = [] then Inr (hosted_client a)
             else
               (case URL_hostname w cs of
                  Inl e \<Rightarrow> Inl e
                | Inr hostname \<Rightarrow>
                    if hostname \<in> set [''127.0.0.1'', ''localhost'']
                    then Inr (local_client a cs)
                    else Inr (hosted_client a))))"

subsection \<open>Lines 69-107: the try block\<close>

definition dropping_message :: "adapter \<Rightarrow> string" where
  "dropping_message a =
     ''---- DROPPING TABLES SCHEMA('' @
     (case schemaName a of
        None \<Rightarrow> ''public''
      | Some n \<Rightarrow> if n = [] then ''public'' else n) @ '') ----''"

text \<open>\<^verbatim>\<open>this.logger || false\<close>\<close>

definition resolve_logger :: "adapter \<Rightarrow> jsval" where
  "resolve_logger a = (if truthy (logger a) then logger a else JBool False)"

text \<open>
  The try block at attempt \<open>i\<close>: the adapter as the block leaves it, the events, and
  \<open>Inl err\<close> when the block throws \<open>err\<close>.
\<close>

definition connect_try ::
  "world \<Rightarrow> process_env \<Rightarrow> nat \<Rightarrow> adapter \<Rightarrow> options \<Rightarrow> adapter \<times> event list \<times> (jsval + unit)" where
  "connect_try w env i a opts =
     (case select_client w env a of
        Inl err \<Rightarrow> (a, [], Inl err)
      | Inr client \<Rightarrow>
          (case connectWithReconnect (client_connect w i) False of
             (evs, Inl err) \<Rightarrow> (a, Client_selected client # evs, Inl err)
           | (evs, Inr u) \<Rightarrow>
               (let a' = a\<lparr>drizzle := Some (Drizzle client (resolve_logger a) (schema a))\<rparr>;
                    evs' = Client_selected client # evs
                in if \<not> hotReload opts \<and> PAYLOAD_DROP_DATABASE env = Some ''true'' then
                     (case dropDatabase w i of
                        Inl err \<Rightarrow>
                          (a', evs' @ [Logger_info (dropping_message a'), Drop_database], Inl err)
                      | Inr u \<Rightarrow>
                          (a', evs' @ [Logger_info (dropping_message a'), Drop_database,
                                       Logger_info ''---- DROPPED TABLES ----''], Inr ()))
                   else (a', evs', Inr ()))))"

subsection \<open>Lines 108-131: the catch block\<close>

text \<open>
  The regular expression \<^verbatim>\<open>/database .* does not exist/i\<close>, searched anywhere in
  the string. With the \<^verbatim>\<open>i\<close> flag and no \<^verbatim>\<open>u\<close> flag a letter of the
  pattern matches its two ASCII cases and nothing else; the dot matches every character
  but a line terminator.
\<close>

definition to_upper :: "char \<Rightarrow> char" where
  "to_upper c =
     (case map_of (zip ''abcdefghijklmnopqrstuvwxyz'' ''ABCDEFGHIJKLMNOPQRSTUVWXYZ'') c of
        None \<Rightarrow> c
      | Some u \<Rightarrow> u)"

definition line_terminator :: "char \<Rightarrow> bool" where
  "line_terminator c \<longleftrightarrow> c = CHR 0x0A \<or> c = CHR 0x0D"

fun starts_with_ci :: "string \<Rightarrow> string \<Rightarrow> bool" where
  "starts_with_ci s [] = True"
| "starts_with_ci [] (p # ps) = False"
| "starts_with_ci (c # cs) (p # ps) = (to_upper c = to_upper p \<and> starts_with_ci cs ps)"

text \<open>\<open>dots_then s p\<close>: some run of dot characters at the start of \<open>s\<close> is followed
  by \<open>p\<close>.\<close>

fun dots_then :: "string \<Rightarrow> string \<Rightarrow> bool" where
  "dots_then [] p = starts_with_ci [] p"
| "dots_then (c # cs) p =
     (starts_with_ci (c # cs) p \<or> (\<not> line_terminator c \<and> dots_then cs p))"

definition match_here :: "string \<Rightarrow> bool" where
  "match_here s \<longleftrightarrow>
     starts_with_ci s ''database '' \<and> dots_then (drop 9 s) '' does not exist''"

fun database_does_not_exist :: "string \<Rightarrow> bool" where
  "database_does_not_exist [] = False"
| "database_does_not_exist (c # cs) = (match_here (c # cs) \<or> database_does_not_exist cs)"

text \<open>\<^verbatim>\<open>s.charAt(0).toUpperCase() + s.slice(1)\<close>, with the upper case of the
  platform.\<close>

definition capitalize :: "world \<Rightarrow> string \<Rightarrow> string" where
  "capitalize w s = toUpperCase w (take 1 s) @ drop 1 s"

text \<open>ToString, as a template literal applies it.\<close>

fun digits :: "nat \<Rightarrow> string" where
  "digits n =
     (if n < 10 then [char_of (48 + n)] else digits (n div 10) @ [char_of (48 + n mod 10)])"

fun to_string :: "jsval \<Rightarrow> string" where
  "to_string JUndefined = ''undefined''"
| "to_string JNull = ''null''"
| "to_string (JBool b) = (if b then ''true'' else ''false'')"
| "to_string (JNum n) = (if n < 0 then ''-'' @ digits (nat (- n)) else digits (nat n))"
| "to_string (JStr s) = s"
| "to_string (JObj ps) = ''[object Object]''"

text \<open>Lines 127-130.\<close>

definition terminal_failure :: "adapter \<Rightarrow> event list" where
  "terminal_failure a =
     (case rejectInitializing a of None \<Rightarrow> [] | Some f \<Rightarrow> [Reject_initializing])
     @ [Process_exit 1]"

text \<open>Lines 121-130: the error log followed by the terminal failure.\<close>

definition fatal :: "adapter \<Rightarrow> jsval \<Rightarrow> jsval \<Rightarrow> event list" where
  "fatal a err m =
     Logger_error err (''Error: cannot connect to Postgres. Details: '' @ to_string m)
     # terminal_failure a"

text \<open>
  The catch block up to the recursive call: either the block is over, with its events
  and how the call of \<^verbatim>\<open>connect\<close> ends, or \<^verbatim>\<open>this.connect(options)\<close> is
  to be called next. \<^verbatim>\<open>err.message?.match(...)\<close> is \<^verbatim>\<open>undefined\<close> on a
  missing message, the result of the match on a string, and a \<^verbatim>\<open>TypeError\<close> on
  the other values; it is evaluated before \<^verbatim>\<open>!this.disableCreateDatabase\<close>.
\<close>

datatype catch_result = Catch_done "event list" outcome | Catch_connect "event list"

definition connect_catch :: "world \<Rightarrow> nat \<Rightarrow> adapter \<Rightarrow> options \<Rightarrow> jsval \<Rightarrow> catch_result" where
  "connect_catch w i a opts err =
     (case get_prop err ''message'' of
        Inl e \<Rightarrow> Catch_done [] (Threw e)
      | Inr JUndefined \<Rightarrow> Catch_done (fatal a err JUndefined) (Exited 1)
      | Inr JNull \<Rightarrow> Catch_done (fatal a err JNull) (Exited 1)
      | Inr (JStr s) \<Rightarrow>
          if database_does_not_exist s \<and> \<not> disableCreateDatabase a then
            (case createDatabase w i of
               Inl e \<Rightarrow>
                 Catch_done [Logger_info (capitalize w s @ '', creating...''), Create_database]
                   (Threw e)
             | Inr isCreated \<Rightarrow>
                 if truthy isCreated then
                   Catch_connect [Logger_info (capitalize w s @ '', creating...''),
                                  Create_database, Call_connect opts]
                 else
                   Catch_done ([Logger_info (capitalize w s @ '', creating...''),
                                Create_database] @ terminal_failure a) (Exited 1))
          else Catch_done (fatal a err (JStr s)) (Exited 1)
      | Inr m \<Rightarrow> Catch_done [] (Threw (TypeError ''err.message.match is not a function'')))"

subsection \<open>Lines 133-150: after the connection\<close>

definition dev_push :: "process_env \<Rightarrow> adapter \<Rightarrow> bool" where
  "dev_push env a \<longleftrightarrow>
     NODE_ENV env \<noteq> Some ''production'' \<and> PAYLOAD_MIGRATING env \<noteq> Some ''true''
     \<and> push a \<noteq> Some False"

definition resolve_events :: "adapter \<Rightarrow> event list" where
  "resolve_events a =
     (case resolveInitializing a of None \<Rightarrow> [] | Some f \<Rightarrow> [Resolve_initializing])"

definition connect_post :: "world \<Rightarrow> process_env \<Rightarrow> nat \<Rightarrow> adapter \<Rightarrow> event list \<times> outcome" where
  "connect_post w env i a =
     (case createExtensions w i of
        Inl e \<Rightarrow> ([Create_extensions], Threw e)
      | Inr u \<Rightarrow>
          (case (if dev_push env a then
                   (case pushDevSchema w i of
                      Inl e \<Rightarrow> ([Push_dev_schema], Inl e)
                    | Inr u \<Rightarrow> ([Push_dev_schema], Inr ()))
                 else ([], Inr ())) of
             (evs, Inl e) \<Rightarrow> (Create_extensions # evs, Threw e)
           | (evs, Inr u) \<Rightarrow>
               (if NODE_ENV env = Some ''production'' then
                  (case prodMigrations a of
                     None \<Rightarrow> (Create_extensions # evs @ resolve_events a, Returned)
                   | Some ms \<Rightarrow>
                       (case migrate w i of
                          Inl e \<Rightarrow>
                            (Create_extensions # evs @ resolve_events a @ [Migrate ms], Threw e)
                        | Inr u \<Rightarrow>
                            (Create_extensions # evs @ resolve_events a @ [Migrate ms],
                             Returned)))
                else (Create_extensions # evs @ resolve_events a, Returned))))"

subsection \<open>The whole function\<close>

text \<open>
  \<open>connect fuel w env i a opts\<close> is the call \<^verbatim>\<open>connect(opts)\<close> on the adapter
  \<open>a\<close> as attempt \<open>i\<close>: the adapter it leaves, its events, and how it ends. The
  function calls itself after each database it creates, without bound, so \<open>fuel\<close>
  limits the depth of the calls and \<open>None\<close> says that the limit was reached.
  \<open>Exited n\<close> is \<^verbatim>\<open>process.exit(n)\<close>, after which nothing runs.
\<close>

fun connect ::
  "nat \<Rightarrow> world \<Rightarrow> process_env \<Rightarrow> nat \<Rightarrow> adapter \<Rightarrow> options
   \<Rightarrow> (adapter \<times> event list \<times> outcome) option" where
  "connect 0 w env i a opts = None"
| "connect (Suc fuel) w env i a opts =
     (case connect_try w env i (a\<lparr>schema := assemble_schema a\<rparr>) opts of
        (a', evs, Inr u) \<Rightarrow>
          (case connect_post w env i a' of
             (evs', out) \<Rightarrow> Some (a', evs @ evs', out))
      | (a', evs, Inl err) \<Rightarrow>
          (case connect_catch w i a' opts err of
             Catch_done evs' out \<Rightarrow> Some (a', evs @ evs', out)
           | Catch_connect evs' \<Rightarrow>
               (case connect fuel w env (Suc i) a' opts of
                  None \<Rightarrow> None
                | Some (a'', evs'', out) \<Rightarrow> Some (a'', evs @ evs' @ evs'', out))))"

section \<open>Expected histories and sample inputs\<close>

text \<open>
  The history of a chain of failed reconnect attempts that starts at time \<open>t\<close>: the
  first attempt, then \<open>n\<close> retries, the \<open>j\<close>-th at time \<open>t + 1000 * j\<close>.
\<close>

definition attempt_history :: "nat \<Rightarrow> (nat \<times> event) list" where
  "attempt_history t =
     [(t, Spawn_connectWithReconnect True), (t, Client_connect), (t, Set_timeout 1000 Retry)]"

fun retry_history :: "nat \<Rightarrow> nat \<Rightarrow> (nat \<times> event) list" where
  "retry_history t 0 = attempt_history t"
| "retry_history t (Suc n) =
     retry_history t n
     @ (t + 1000 * Suc n, Logger_info ''Reconnecting to postgres'')
     # attempt_history (t + 1000 * Suc n)"

text \<open>A server that refuses every connection.\<close>

definition refused :: jsval where
  "refused = JObj [(''code'', JStr ''ECONNREFUSED''),
                   (''message'', JStr ''connect ECONNREFUSED 127.0.0.1:5432'')]"

definition always_refused :: "nat \<Rightarrow> jsval + connection option" where
  "always_refused k = Inl refused"

text \<open>The events of lines 133-150, and the order in which a call that runs them all
  produces them.\<close>

fun post_event :: "event \<Rightarrow> bool" where
  "post_event Create_extensions = True"
| "post_event Push_dev_schema = True"
| "post_event Resolve_initializing = True"
| "post_event (Migrate ms) = True"
| "post_event e = False"

definition post_order :: "process_env \<Rightarrow> adapter \<Rightarrow> event list" where
  "post_order env a =
     [Create_extensions]
     @ (if NODE_ENV env \<noteq> Some ''production'' \<and> PAYLOAD_MIGRATING env \<noteq> Some ''true''
           \<and> push a \<noteq> Some False
        then [Push_dev_schema] else [])
     @ (case resolveInitializing a of None \<Rightarrow> [] | Some f \<Rightarrow> [Resolve_initializing])
     @ (if NODE_ENV env = Some ''production''
        then (case prodMigrations a of None \<Rightarrow> [] | Some ms \<Rightarrow> [Migrate ms])
        else [])"

text \<open>
  Sample inputs. \<open>sample_hostname\<close> stands for the URL parser on the sample strings:
  it gives the host of a string that starts with \<^verbatim>\<open>postgres://\<close> and throws
  on the others, as \<^verbatim>\<open>new URL\<close> does on \<^verbatim>\<open>localhost/payload\<close> and on the
  empty string. Its \<open>toUpperCase\<close> is the ASCII one, which is that of the platform
  on the sample messages. In \<open>sample_world\<close> every collaborator succeeds.
\<close>

definition invalid_url :: jsval where
  "invalid_url = JObj [(''code'', JStr ''ERR_INVALID_URL''), (''message'', JStr ''Invalid URL'')]"

definition sample_hostname :: "string \<Rightarrow> jsval + string" where
  "sample_hostname s =
     (if starts_with s ''postgres://''
      then Inr (takeWhile (\<lambda>c. c \<noteq> CHR ''/'' \<and> c \<noteq> CHR '':'') (drop 11 s))
      else Inl invalid_url)"

definition sample_world :: world where
  "sample_world =
     \<lparr>URL_hostname = sample_hostname,
      toUpperCase = map to_upper,
      client_connect = (\<lambda>i. Inr (Some i)),
      dropDatabase = (\<lambda>i. Inr ()),
      createDatabase = (\<lambda>i. Inr (JBool True)),
      createExtensions = (\<lambda>i. Inr ()),
      pushDevSchema = (\<lambda>i. Inr ()),
      migrate = (\<lambda>i. Inr ())\<rparr>"

definition sample_env :: process_env where
  "sample_env =
     \<lparr>POSTGRES_URL = Some ''postgres://localhost:5432/payload'',
      PAYLOAD_DROP_DATABASE = None,
      NODE_ENV = Some ''development'',
      PAYLOAD_MIGRATING = None\<rparr>"

definition sample_adapter :: adapter where
  "sample_adapter =
     \<lparr>pgSchema = JStr ''public'',
      tables = [''users'' \<mapsto> JObj []],
      relations = Map.empty,
      enums = Map.empty,
      schema = Map.empty,
      logger = JUndefined,
      poolOptions = None,
      forceUseVercelPostgres = False,
      drizzle = None,
      schemaName = None,
      disableCreateDatabase = False,
      push = None,
      rejectInitializing = Some Callback,
      resolveInitializing = Some Callback,
      prodMigrations = None\<rparr>"

text \<open>The error of a server that has no database \<^verbatim>\<open>payload\<close>; \<open>CHR 0x22\<close> is the
  double quote.\<close>

definition missing_database :: jsval where
  "missing_database =
     JObj [(''code'', JStr ''3D000''),
           (''message'',
            JStr (''database '' @ [CHR 0x22] @ ''payload'' @ [CHR 0x22] @ '' does not exist''))]"

definition local_pool :: client where
  "local_pool =
     pg_Pool \<lparr>connectionString = Some ''postgres://localhost:5432/payload'', other_options = []\<rparr>"

text \<open>The sample adapter after a connection through the client \<open>c\<close>.\<close>

definition connected_adapter :: "client \<Rightarrow> adapter" where
  "connected_adapter c =
     sample_adapter\<lparr>schema := assemble_schema sample_adapter,
                    drizzle := Some (Drizzle c (JBool False) (assemble_schema sample_adapter))\<rparr>"

section \<open>Properties of the error listener\<close>

lemma starts_with_iff: "starts_with s p \<longleftrightarrow> (\<exists>q. s = p @ q)"
  by (induction s p rule: starts_with.induct) auto

text \<open>\<open>str_includes\<close> decides whether the second string is a substring of the first.\<close>

lemma str_includes_iff: "str_includes s p \<longleftrightarrow> (\<exists>u v. s = u @ p @ v)"
proof (induction s)
  case Nil
  show ?case by (cases p) auto
next
  case (Cons c cs)
  show ?case
  proof
    assume "str_includes (c # cs) p"
    then consider "starts_with (c # cs) p" | "str_includes cs p" by auto
    then show "\<exists>u v. c # cs = u @ p @ v"
    proof cases
      case 1
      then obtain q where "c # cs = p @ q" by (auto simp: starts_with_iff)
      then have "c # cs = [] @ p @ q" by simp
      then show ?thesis by blast
    next
      case 2
      with Cons obtain u v where "cs = u @ p @ v" by auto
      then have "c # cs = (c # u) @ p @ v" by simp
      then show ?thesis by blast
    qed
  next
    assume "\<exists>u v. c # cs = u @ p @ v"
    then obtain u v where uv: "c # cs = u @ p @ v" by blast
    show "str_includes (c # cs) p"
    proof (cases u)
      case Nil
      with uv have "starts_with (c # cs) p" by (auto simp: starts_with_iff)
      then show ?thesis by simp
    next
      case (Cons d u')
      with uv have "cs = u' @ p @ v" by simp
      with Cons.IH have "str_includes cs p" by blast
      then show ?thesis by simp
    qed
  qed
qed

text \<open>
  C1. Whenever the error handed to the listener has the code \<^verbatim>\<open>ECONNRESET\<close>, or a
  message that is a string containing \<^verbatim>\<open>Connection terminated unexpectedly\<close> or
  \<^verbatim>\<open>connection terminated\<close> (compared character by character, so case matters),
  the listener starts \<^verbatim>\<open>connectWithReconnect\<close> with \<^verbatim>\<open>reconnect: true\<close>
  exactly once, does not await it, and returns.
\<close>

theorem listener_reconnects_on_trigger:
  assumes "get_prop err ''code'' = Inr (JStr ''ECONNRESET'')
     \<or> (\<exists>s. get_prop err ''message'' = Inr (JStr s)
            \<and> ((\<exists>u v. s = u @ ''Connection terminated unexpectedly'' @ v)
               \<or> (\<exists>u v. s = u @ ''connection terminated'' @ v)))"
  shows "error_listener err = ([Spawn_connectWithReconnect True], Inr ())"
proof -
  have "is_connection_error err = Inr True"
    using assms
    by (subst (asm) (1 2) str_includes_iff [symmetric], cases err)
       (auto simp: is_connection_error_def message_includes_def split: option.splits)
  then show ?thesis by (simp add: error_listener_def)
qed

theorem listener_reconnects_on_trigger_witness:
  "error_listener (JObj [(''message'', JStr ''Error: connection terminated'')])
   = ([Spawn_connectWithReconnect True], Inr ())"
proof (rule listener_reconnects_on_trigger)
  have "\<exists>u v. ''Error: connection terminated'' = u @ ''connection terminated'' @ v"
    by (rule exI [of _ "''Error: ''"], rule exI [of _ "[]"]) simp
  then show "get_prop (JObj [(''message'', JStr ''Error: connection terminated'')]) ''code''
      = Inr (JStr ''ECONNRESET'')
     \<or> (\<exists>s. get_prop (JObj [(''message'', JStr ''Error: connection terminated'')]) ''message''
              = Inr (JStr s)
            \<and> ((\<exists>u v. s = u @ ''Connection terminated unexpectedly'' @ v)
               \<or> (\<exists>u v. s = u @ ''connection terminated'' @ v)))"
    by simp
qed

text \<open>
  C8. When the error has neither the code \<^verbatim>\<open>ECONNRESET\<close> nor a string message
  containing one of the two trigger substrings, the listener starts no reconnect and
  logs nothing: it has no event at all. And whatever value it is handed, malformed
  ones included (\<^verbatim>\<open>undefined\<close>, \<^verbatim>\<open>null\<close>, a primitive, an object without a
  message or with a message that is no string), the listener returns normally: no
  exception escapes it.
\<close>

theorem listener_ignores_other_errors:
  "(get_prop err ''code'' \<noteq> Inr (JStr ''ECONNRESET'')
     \<and> \<not> (\<exists>s. get_prop err ''message'' = Inr (JStr s)
            \<and> ((\<exists>u v. s = u @ ''Connection terminated unexpectedly'' @ v)
               \<or> (\<exists>u v. s = u @ ''connection terminated'' @ v)))
     \<longrightarrow> error_listener err = ([], Inr ()))
   \<and> snd (error_listener err) = Inr ()"
proof
  show "get_prop err ''code'' \<noteq> Inr (JStr ''ECONNRESET'')
     \<and> \<not> (\<exists>s. get_prop err ''message'' = Inr (JStr s)
            \<and> ((\<exists>u v. s = u @ ''Connection terminated unexpectedly'' @ v)
               \<or> (\<exists>u v. s = u @ ''connection terminated'' @ v)))
     \<longrightarrow> error_listener err = ([], Inr ())"
  proof
    assume h: "get_prop err ''code'' \<noteq> Inr (JStr ''ECONNRESET'')
     \<and> \<not> (\<exists>s. get_prop err ''message'' = Inr (JStr s)
            \<and> ((\<exists>u v. s = u @ ''Connection terminated unexpectedly'' @ v)
               \<or> (\<exists>u v. s = u @ ''connection terminated'' @ v)))"
    have "is_connection_error err \<noteq> Inr True"
    proof
      assume t: "is_connection_error err = Inr True"
      obtain code where c: "get_prop err ''code'' = Inr code"
        using t by (auto simp: is_connection_error_def split: sum.splits)
      with h have nc: "code \<noteq> JStr ''ECONNRESET''" by auto
      obtain m where m: "get_prop err ''message'' = Inr m"
        using t c nc
        by (auto simp: is_connection_error_def message_includes_def split: sum.splits)
      from t c nc m obtain s where "m = JStr s"
        "str_includes s ''Connection terminated unexpectedly''
         \<or> str_includes s ''connection terminated''"
        by (cases m)
           (auto simp: is_connection_error_def message_includes_def
                 split: sum.splits if_splits)
      with h m show False unfolding str_includes_iff by blast
    qed
    then show "error_listener err = ([], Inr ())"
      by (auto simp: error_listener_def split: sum.splits bool.splits)
  qed
  show "snd (error_listener err) = Inr ()"
    by (simp add: error_listener_def split: sum.splits bool.splits)
qed

theorem listener_ignores_other_errors_witness:
  "error_listener refused = ([], Inr ())
   \<and> error_listener JUndefined = ([], Inr ())
   \<and> snd (error_listener (JObj [(''message'', JNum 42)])) = Inr ()"
proof -
  have n1: "\<not> str_includes ''connect ECONNREFUSED 127.0.0.1:5432''
                ''Connection terminated unexpectedly''"
    by code_simp
  have n2: "\<not> str_includes ''connect ECONNREFUSED 127.0.0.1:5432'' ''connection terminated''"
    by code_simp
  have "get_prop refused ''code'' \<noteq> Inr (JStr ''ECONNRESET'')
     \<and> \<not> (\<exists>s. get_prop refused ''message'' = Inr (JStr s)
            \<and> ((\<exists>u v. s = u @ ''Connection terminated unexpectedly'' @ v)
               \<or> (\<exists>u v. s = u @ ''connection terminated'' @ v)))"
    using n1 n2 unfolding str_includes_iff by (simp add: refused_def)
  with listener_ignores_other_errors [of refused]
  have "error_listener refused = ([], Inr ())" by blast
  moreover have "error_listener JUndefined = ([], Inr ())"
    using listener_ignores_other_errors [of JUndefined] by (simp add: TypeError_def)
  moreover have "snd (error_listener (JObj [(''message'', JNum 42)])) = Inr ()"
    using listener_ignores_other_errors [of "JObj [(''message'', JNum 42)]"] by blast
  ultimately show ?thesis by blast
qed

section \<open>Properties of the reconnect path\<close>

lemma retry_history_unfold:
  "retry_history t (Suc n) =
     attempt_history t @ (t + 1000, Logger_info ''Reconnecting to postgres'')
     # retry_history (t + 1000) n"
  by (induction n) (simp_all add: add.assoc)

lemma connectWithReconnect_fails:
  "connectWithReconnect (Inl e) True = ([Client_connect, Set_timeout 1000 Retry], Inr ())"
  by (simp add: connectWithReconnect_def attach_listener_def)

lemma connectWithReconnect_swallows: "snd (connectWithReconnect r True) = Inr ()"
  by (simp add: connectWithReconnect_def attach_listener_def split: sum.splits option.splits)

lemma spawn_reconnect_fails:
  assumes "isl (answers k)"
  shows "spawn_reconnect answers \<lparr>now = t, timers = ts, calls = k, history = h\<rparr> =
     \<lparr>now = t, timers = ts @ [(t + 1000, Retry)], calls = Suc k,
      history = h @ attempt_history t\<rparr>"
proof -
  from assms obtain e where "answers k = Inl e" by (cases "answers k") auto
  then show ?thesis
    by (simp add: spawn_reconnect_def connectWithReconnect_fails attempt_history_def)
qed

lemma fire_retry:
  "fire answers \<lparr>now = t, timers = [(t + 1000, Retry)], calls = k, history = h\<rparr> =
     Some (spawn_reconnect answers
       \<lparr>now = t + 1000, timers = [], calls = k,
        history = h @ [(t + 1000, Logger_info ''Reconnecting to postgres'')]\<rparr>)"
  by (simp add: fire_def max_def)

text \<open>A chain of failures: each firing of the timer leaves exactly one timer pending,
  one second later.\<close>

lemma retry_chain:
  assumes "\<forall>j\<le>n. isl (answers (k + j))"
  shows "run n answers (spawn_reconnect answers \<lparr>now = t, timers = [], calls = k, history = h\<rparr>) =
     \<lparr>now = t + 1000 * n, timers = [(t + 1000 * Suc n, Retry)], calls = k + Suc n,
      history = h @ retry_history t n\<rparr>"
  using assms
proof (induction n arbitrary: t k h)
  case 0
  then show ?case by (simp add: spawn_reconnect_fails)
next
  case (Suc n)
  let ?h' = "h @ attempt_history t @ [(t + 1000, Logger_info ''Reconnecting to postgres'')]"
  from Suc.prems have first: "isl (answers k)" by (metis le0 add_0_right)
  have rest: "\<forall>j\<le>n. isl (answers (Suc k + j))"
  proof (intro allI impI)
    fix j assume "j \<le> n"
    then have "Suc j \<le> Suc n" by simp
    with Suc.prems have "isl (answers (k + Suc j))" by blast
    then show "isl (answers (Suc k + j))" by simp
  qed
  have "fire answers (spawn_reconnect answers \<lparr>now = t, timers = [], calls = k, history = h\<rparr>)
      = Some (spawn_reconnect answers \<lparr>now = t + 1000, timers = [], calls = Suc k, history = ?h'\<rparr>)"
    by (simp add: spawn_reconnect_fails [of answers k, OF first] fire_retry)
  then have "run (Suc n) answers (spawn_reconnect answers \<lparr>now = t, timers = [], calls = k, history = h\<rparr>)
      = run n answers (spawn_reconnect answers \<lparr>now = t + 1000, timers = [], calls = Suc k, history = ?h'\<rparr>)"
    by simp
  also have "\<dots> = \<lparr>now = t + 1000 + 1000 * n, timers = [(t + 1000 + 1000 * Suc n, Retry)],
       calls = Suc k + Suc n, history = ?h' @ retry_history (t + 1000) n\<rparr>"
    using rest by (rule Suc.IH)
  also have "\<dots> = \<lparr>now = t + 1000 * Suc n, timers = [(t + 1000 * Suc (Suc n), Retry)],
       calls = k + Suc (Suc n), history = h @ retry_history t (Suc n)\<rparr>"
    by (simp add: retry_history_unfold del: retry_history.simps)
  finally show ?case .
qed

text \<open>
  C2. A call of \<^verbatim>\<open>connectWithReconnect\<close> with \<^verbatim>\<open>reconnect: true\<close> whose
  connect attempt fails sets exactly one timer, of 1000 milliseconds, and returns; with
  \<^verbatim>\<open>reconnect: true\<close> the call never rejects, whatever the client answers. The
  timer's callback logs \<^verbatim>\<open>Reconnecting to postgres\<close> and starts the same operation
  with \<^verbatim>\<open>reconnect: true\<close>. So for every \<open>n\<close>, when the first \<open>n + 1\<close> attempts of
  a chain all fail, attempt \<open>j\<close> is made at time \<open>t + 1000 * j\<close> for every \<open>j \<le> n\<close>
  (the history is \<open>retry_history t n\<close>), and after the last of them exactly one timer
  is pending, again 1000 milliseconds later: no cap, no growing delay.
\<close>

theorem reconnect_retries_every_second:
  "connectWithReconnect (Inl e) True = ([Client_connect, Set_timeout 1000 Retry], Inr ())
   \<and> snd (connectWithReconnect r True) = Inr ()
   \<and> ((\<forall>j\<le>n. isl (answers (k + j))) \<longrightarrow>
        run n answers (spawn_reconnect answers \<lparr>now = t, timers = [], calls = k, history = []\<rparr>)
        = \<lparr>now = t + 1000 * n, timers = [(t + 1000 * Suc n, Retry)], calls = k + Suc n,
           history = retry_history t n\<rparr>)"
  using retry_chain [of n answers k t "[]"]
  by (simp add: connectWithReconnect_fails connectWithReconnect_swallows)

theorem reconnect_retries_every_second_witness:
  "connectWithReconnect (Inl refused) True
       = ([Client_connect, Set_timeout 1000 Retry], Inr ())
   \<and> snd (connectWithReconnect (Inr (Some 7)) True) = Inr ()
   \<and> run 3 always_refused
        (spawn_reconnect always_refused \<lparr>now = 0, timers = [], calls = 0, history = []\<rparr>)
      = \<lparr>now = 3000, timers = [(4000, Retry)], calls = 4, history = retry_history 0 3\<rparr>"
  using reconnect_retries_every_second [of refused "Inr (Some 7)" 3 always_refused 0 0]
  by (simp add: always_refused_def)

section \<open>Properties of the top-level connect\<close>

lemmas sample_defs =
  sample_world_def sample_env_def sample_adapter_def sample_hostname_def invalid_url_def
  local_pool_def connected_adapter_def missing_database_def refused_def always_refused_def

lemmas connect_defs =
  connect_try_def connect_catch_def connect_post_def select_client_def
  resolve_connectionString_def hosted_client_def local_client_def connectWithReconnect_def
  attach_listener_def resolve_logger_def dropping_message_def fatal_def terminal_failure_def
  dev_push_def resolve_events_def TypeError_def

subsection \<open>The regular expression\<close>

lemma starts_with_ci_iff:
  "starts_with_ci s p \<longleftrightarrow>
     length p \<le> length s \<and> map to_upper (take (length p) s) = map to_upper p"
  by (induction s p rule: starts_with_ci.induct) auto

lemma dots_then_iff:
  "dots_then s p \<longleftrightarrow>
     (\<exists>k\<le>length s. (\<forall>c\<in>set (take k s). \<not> line_terminator c) \<and> starts_with_ci (drop k s) p)"
proof (induction s)
  case Nil
  then show ?case by simp
next
  case (Cons c cs)
  show ?case
  proof
    assume "dots_then (c # cs) p"
    then consider "starts_with_ci (c # cs) p"
      | "\<not> line_terminator c" "dots_then cs p" by auto
    then show "\<exists>k\<le>length (c # cs). (\<forall>c\<in>set (take k (c # cs)). \<not> line_terminator c)
        \<and> starts_with_ci (drop k (c # cs)) p"
    proof cases
      case 1
      then have "0 \<le> length (c # cs) \<and> (\<forall>c\<in>set (take 0 (c # cs)). \<not> line_terminator c)
        \<and> starts_with_ci (drop 0 (c # cs)) p" by simp
      then show ?thesis by blast
    next
      case 2
      with Cons obtain k where "k \<le> length cs" "\<forall>c\<in>set (take k cs). \<not> line_terminator c"
        "starts_with_ci (drop k cs) p" by auto
      with 2(1) have "Suc k \<le> length (c # cs)
        \<and> (\<forall>c\<in>set (take (Suc k) (c # cs)). \<not> line_terminator c)
        \<and> starts_with_ci (drop (Suc k) (c # cs)) p" by simp
      then show ?thesis by blast
    qed
  next
    assume "\<exists>k\<le>length (c # cs). (\<forall>c\<in>set (take k (c # cs)). \<not> line_terminator c)
        \<and> starts_with_ci (drop k (c # cs)) p"
    then obtain k where k: "k \<le> length (c # cs)"
      "\<forall>c\<in>set (take k (c # cs)). \<not> line_terminator c"
      "starts_with_ci (drop k (c # cs)) p" by blast
    show "dots_then (c # cs) p"
    proof (cases k)
      case 0
      with k show ?thesis by simp
    next
      case (Suc j)
      with k have "j \<le> length cs" "\<forall>c\<in>set (take j cs). \<not> line_terminator c"
        "starts_with_ci (drop j cs) p" "\<not> line_terminator c" by simp_all
      with Cons show ?thesis by auto
    qed
  qed
qed

lemma database_does_not_exist_index:
  "database_does_not_exist s \<longleftrightarrow> (\<exists>j\<le>length s. match_here (drop j s))"
proof (induction s)
  case Nil
  then show ?case by (simp add: match_here_def)
next
  case (Cons c cs)
  show ?case
  proof
    assume "database_does_not_exist (c # cs)"
    then consider "match_here (c # cs)" | "database_does_not_exist cs" by auto
    then show "\<exists>j\<le>length (c # cs). match_here (drop j (c # cs))"
    proof cases
      case 1
      then have "0 \<le> length (c # cs) \<and> match_here (drop 0 (c # cs))" by simp
      then show ?thesis by blast
    next
      case 2
      with Cons obtain j where "j \<le> length cs" "match_here (drop j cs)" by auto
      then have "Suc j \<le> length (c # cs) \<and> match_here (drop (Suc j) (c # cs))" by simp
      then show ?thesis by blast
    qed
  next
    assume "\<exists>j\<le>length (c # cs). match_here (drop j (c # cs))"
    then obtain j where j: "j \<le> length (c # cs)" "match_here (drop j (c # cs))" by blast
    show "database_does_not_exist (c # cs)"
    proof (cases j)
      case 0
      with j show ?thesis by simp
    next
      case (Suc k)
      with j have "k \<le> length cs" "match_here (drop k cs)" by simp_all
      with Cons show ?thesis by auto
    qed
  qed
qed

lemma starts_with_ci_split:
  "starts_with_ci s p \<longleftrightarrow> (\<exists>x v. s = x @ v \<and> map to_upper x = map to_upper p)"
proof
  assume "starts_with_ci s p"
  then have "length p \<le> length s" "map to_upper (take (length p) s) = map to_upper p"
    by (simp_all add: starts_with_ci_iff)
  moreover have "s = take (length p) s @ drop (length p) s" by simp
  ultimately show "\<exists>x v. s = x @ v \<and> map to_upper x = map to_upper p" by blast
next
  assume "\<exists>x v. s = x @ v \<and> map to_upper x = map to_upper p"
  then obtain x v where s: "s = x @ v" and x: "map to_upper x = map to_upper p" by blast
  from x have "length x = length p" by (rule map_eq_imp_length_eq)
  with s x show "starts_with_ci s p" by (simp add: starts_with_ci_iff)
qed

lemma dots_then_split:
  "dots_then s p \<longleftrightarrow>
     (\<exists>y z v. s = y @ z @ v \<and> (\<forall>c\<in>set y. \<not> line_terminator c)
        \<and> map to_upper z = map to_upper p)"
proof
  assume "dots_then s p"
  then obtain k where k: "\<forall>c\<in>set (take k s). \<not> line_terminator c"
    "starts_with_ci (drop k s) p"
    by (auto simp: dots_then_iff)
  from k(2) obtain z v where "drop k s = z @ v" "map to_upper z = map to_upper p"
    by (auto simp: starts_with_ci_split)
  moreover have "s = take k s @ drop k s" by simp
  ultimately have "s = take k s @ z @ v" by simp
  with k(1) \<open>map to_upper z = map to_upper p\<close>
  show "\<exists>y z v. s = y @ z @ v \<and> (\<forall>c\<in>set y. \<not> line_terminator c)
        \<and> map to_upper z = map to_upper p" by blast
next
  assume "\<exists>y z v. s = y @ z @ v \<and> (\<forall>c\<in>set y. \<not> line_terminator c)
        \<and> map to_upper z = map to_upper p"
  then obtain y z v where s: "s = y @ z @ v" and y: "\<forall>c\<in>set y. \<not> line_terminator c"
    and z: "map to_upper z = map to_upper p" by blast
  from z have "starts_with_ci (z @ v) p" by (auto simp: starts_with_ci_split)
  with s y have "length y \<le> length s \<and> (\<forall>c\<in>set (take (length y) s). \<not> line_terminator c)
    \<and> starts_with_ci (drop (length y) s) p" by simp
  then show "dots_then s p" unfolding dots_then_iff by blast
qed

lemma ci_match_split:
  "starts_with_ci s p \<and> dots_then (drop (length p) s) q \<longleftrightarrow>
     (\<exists>x y z v. s = x @ y @ z @ v
        \<and> map to_upper x = map to_upper p
        \<and> (\<forall>c\<in>set y. \<not> line_terminator c)
        \<and> map to_upper z = map to_upper q)"
proof
  assume m: "starts_with_ci s p \<and> dots_then (drop (length p) s) q"
  then obtain x r where s: "s = x @ r" and x: "map to_upper x = map to_upper p"
    unfolding starts_with_ci_split by blast
  from x have "length x = length p" by (rule map_eq_imp_length_eq)
  with s m have "dots_then r q" by simp
  then obtain y z v where "r = y @ z @ v" "\<forall>c\<in>set y. \<not> line_terminator c"
    "map to_upper z = map to_upper q"
    unfolding dots_then_split by blast
  with s x show "\<exists>x y z v. s = x @ y @ z @ v
        \<and> map to_upper x = map to_upper p
        \<and> (\<forall>c\<in>set y. \<not> line_terminator c)
        \<and> map to_upper z = map to_upper q" by blast
next
  assume "\<exists>x y z v. s = x @ y @ z @ v
        \<and> map to_upper x = map to_upper p
        \<and> (\<forall>c\<in>set y. \<not> line_terminator c)
        \<and> map to_upper z = map to_upper q"
  then obtain x y z v where s: "s = x @ y @ z @ v"
    and x: "map to_upper x = map to_upper p"
    and y: "\<forall>c\<in>set y. \<not> line_terminator c"
    and z: "map to_upper z = map to_upper q" by blast
  from x have lx: "length x = length p" by (rule map_eq_imp_length_eq)
  from s x have 1: "starts_with_ci s p" unfolding starts_with_ci_split by blast
  from y z have "dots_then (y @ z @ v) q" unfolding dots_then_split by blast
  with s lx have 2: "dots_then (drop (length p) s) q" by simp
  from 1 2 show "starts_with_ci s p \<and> dots_then (drop (length p) s) q" by blast
qed

lemma upper_database: "map to_upper ''database '' = ''DATABASE ''"
  by code_simp

lemma upper_does_not_exist: "map to_upper '' does not exist'' = '' DOES NOT EXIST''"
  by code_simp

lemma match_here_split:
  "match_here s \<longleftrightarrow>
     (\<exists>x y z v. s = x @ y @ z @ v
        \<and> map to_upper x = ''DATABASE ''
        \<and> (\<forall>c\<in>set y. \<not> line_terminator c)
        \<and> map to_upper z = '' DOES NOT EXIST'')"
proof -
  have l: "9 = length ''database ''" by simp
  have "match_here s \<longleftrightarrow>
      starts_with_ci s ''database ''
      \<and> dots_then (drop (length ''database '') s) '' does not exist''"
    by (simp only: match_here_def l [symmetric])
  then show ?thesis by (simp only: ci_match_split upper_database upper_does_not_exist)
qed

lemma search_split:
  assumes "\<And>r. m r \<longleftrightarrow> (\<exists>x y z v. r = x @ y @ z @ v \<and> P x y z)"
  shows "(\<exists>j\<le>length s. m (drop j s)) \<longleftrightarrow> (\<exists>u x y z v. s = u @ x @ y @ z @ v \<and> P x y z)"
proof
  assume "\<exists>j\<le>length s. m (drop j s)"
  then obtain j where "m (drop j s)" by blast
  with assms obtain x y z v where "drop j s = x @ y @ z @ v" "P x y z" by blast
  moreover have "s = take j s @ drop j s" by simp
  ultimately have "s = take j s @ x @ y @ z @ v \<and> P x y z" by simp
  then show "\<exists>u x y z v. s = u @ x @ y @ z @ v \<and> P x y z" by blast
next
  assume "\<exists>u x y z v. s = u @ x @ y @ z @ v \<and> P x y z"
  then obtain u x y z v where s: "s = u @ x @ y @ z @ v" and p: "P x y z" by blast
  from p assms have "m (x @ y @ z @ v)" by blast
  with s have "length u \<le> length s \<and> m (drop (length u) s)" by simp
  then show "\<exists>j\<le>length s. m (drop j s)" by blast
qed

text \<open>
  \<open>database_does_not_exist\<close> decides the language of the regular expression: the
  string has a part that reads \<^verbatim>\<open>database \<close> up to case, then any characters but
  line terminators, then \<^verbatim>\<open> does not exist\<close> up to case.
\<close>

lemma database_does_not_exist_iff:
  "database_does_not_exist s \<longleftrightarrow>
     (\<exists>u x y z v. s = u @ x @ y @ z @ v
        \<and> (map to_upper x = ''DATABASE ''
        \<and> (\<forall>c\<in>set y. \<not> line_terminator c)
        \<and> map to_upper z = '' DOES NOT EXIST''))"
  unfolding database_does_not_exist_index
  by (rule search_split) (rule match_here_split)

subsection \<open>The regular expression on the sample messages\<close>

lemma missing_database_matches:
  "database_does_not_exist
     (''database '' @ [CHR 0x22] @ ''payload'' @ [CHR 0x22] @ '' does not exist'')"
  by code_simp

lemma refused_no_match:
  "\<not> database_does_not_exist ''connect ECONNREFUSED 127.0.0.1:5432''"
  by code_simp

lemma invalid_url_no_match: "\<not> database_does_not_exist ''Invalid URL''"
  by code_simp

lemma upper_d: "to_upper CHR ''d'' = CHR ''D''"
  by code_simp

subsection \<open>The fuel\<close>

text \<open>The result of a call does not depend on the fuel, once there is enough of it.\<close>

lemma connect_fuel_mono:
  assumes "connect n w env i a opts = Some r"
  shows "connect (n + k) w env i a opts = Some r"
  using assms
proof (induction n arbitrary: i a r)
  case 0
  then show ?case by simp
next
  case (Suc n)
  obtain a1 evs1 r1 where
    t: "connect_try w env i (a\<lparr>schema := assemble_schema a\<rparr>) opts = (a1, evs1, r1)"
    by (cases "connect_try w env i (a\<lparr>schema := assemble_schema a\<rparr>) opts") auto
  show ?case
  proof (cases r1)
    case (Inr u)
    with Suc.prems t show ?thesis by (auto split: prod.splits)
  next
    case (Inl err)
    show ?thesis
    proof (cases "connect_catch w i a1 opts err")
      case (Catch_done evs' out')
      with Suc.prems t Inl show ?thesis by auto
    next
      case (Catch_connect evs')
      with Suc.prems t Inl obtain r' where
        r': "connect n w env (Suc i) a1 opts = Some r'"
        by (auto split: option.splits)
      from Suc.IH [OF r'] have "connect (n + k) w env (Suc i) a1 opts = Some r'" .
      with Suc.prems t Inl Catch_connect r' show ?thesis by auto
    qed
  qed
qed

subsection \<open>What the call writes to the adapter\<close>

lemma connect_try_frame:
  assumes "connect_try w env i a opts = (a', evs, r)"
  shows "a' = a\<lparr>drizzle := drizzle a'\<rparr>"
  using assms
  by (auto simp: connect_try_def Let_def split: sum.splits prod.splits if_splits)

lemma assemble_schema_frame [simp]:
  "assemble_schema (a\<lparr>schema := x, drizzle := y\<rparr>) = assemble_schema a"
  by (simp add: assemble_schema_def)

lemma connect_try_fields:
  assumes "connect_try w env i a opts = (a', evs, r)"
  shows "disableCreateDatabase a' = disableCreateDatabase a"
    and "rejectInitializing a' = rejectInitializing a"
proof -
  from connect_try_frame [OF assms] have "a' = a\<lparr>drizzle := drizzle a'\<rparr>" .
  then have "disableCreateDatabase a' = disableCreateDatabase (a\<lparr>drizzle := drizzle a'\<rparr>)"
    and "rejectInitializing a' = rejectInitializing (a\<lparr>drizzle := drizzle a'\<rparr>)"
    by simp_all
  then show "disableCreateDatabase a' = disableCreateDatabase a"
    and "rejectInitializing a' = rejectInitializing a" by simp_all
qed

lemma sample_run:
  "connect 1 sample_world sample_env 0 sample_adapter \<lparr>hotReload = False\<rparr>
   = Some (connected_adapter local_pool,
       [Client_selected local_pool, Client_connect, On_error 0,
        Create_extensions, Push_dev_schema, Resolve_initializing],
       Returned)"
  by (simp add: connect_defs sample_defs assemble_schema_def)

text \<open>
  C9, as amended. Whatever the collaborators answer and however the call ends, the
  adapter a call of \<^verbatim>\<open>connect\<close> leaves differs from the one it was given in at
  most two fields, the two the source assigns: \<open>schema\<close>, which always holds the merged
  schema, and \<open>drizzle\<close>, the query layer. No field holds the client: it is a local
  variable. Every other field is unchanged.
\<close>

theorem connect_assigns_schema_and_drizzle:
  assumes "connect fuel w env i a opts = Some (a', evs, out)"
  shows "a' = a\<lparr>schema := assemble_schema a, drizzle := drizzle a'\<rparr>"
  using assms
proof (induction fuel arbitrary: i a a' evs out)
  case 0
  then show ?case by simp
next
  case (Suc fuel)
  obtain a1 evs1 r1 where
    t: "connect_try w env i (a\<lparr>schema := assemble_schema a\<rparr>) opts = (a1, evs1, r1)"
    by (cases "connect_try w env i (a\<lparr>schema := assemble_schema a\<rparr>) opts") auto
  from connect_try_frame [OF t]
  have a1: "a1 = a\<lparr>schema := assemble_schema a, drizzle := drizzle a1\<rparr>" by simp
  show ?case
  proof (cases r1)
    case (Inr u)
    with Suc.prems t have "a' = a1" by (auto split: prod.splits)
    with a1 show ?thesis by simp
  next
    case (Inl err)
    show ?thesis
    proof (cases "connect_catch w i a1 opts err")
      case (Catch_done evs' out')
      with Suc.prems t Inl have "a' = a1" by auto
      with a1 show ?thesis by simp
    next
      case (Catch_connect evs')
      with Suc.prems t Inl obtain evs'' where
        "connect fuel w env (Suc i) a1 opts = Some (a', evs'', out)"
        by (auto split: option.splits)
      from Suc.IH [OF this]
      have "a' = a1\<lparr>schema := assemble_schema a1, drizzle := drizzle a'\<rparr>" .
      also have "\<dots> = a\<lparr>schema := assemble_schema a, drizzle := drizzle a'\<rparr>"
        by (subst (1 2) a1) simp
      finally show ?thesis .
    qed
  qed
qed

theorem connect_assigns_schema_and_drizzle_witness:
  "connect 1 sample_world sample_env 0 sample_adapter \<lparr>hotReload = False\<rparr>
   = Some (connected_adapter local_pool,
       [Client_selected local_pool, Client_connect, On_error 0,
        Create_extensions, Push_dev_schema, Resolve_initializing],
       Returned)
   \<and> connected_adapter local_pool
     = sample_adapter\<lparr>schema := assemble_schema sample_adapter,
                      drizzle := drizzle (connected_adapter local_pool)\<rparr>"
  using connect_assigns_schema_and_drizzle [OF sample_run] sample_run by simp

text \<open>
  The \<open>schema\<close> field is written: the sample adapter starts with an empty schema and
  ends with one that has the key \<^verbatim>\<open>pgSchema\<close>.
\<close>

theorem schema_is_assigned_counterexample:
  "schema sample_adapter ''pgSchema'' = None
   \<and> schema (fst (the (connect 1 sample_world sample_env 0 sample_adapter
                         \<lparr>hotReload = False\<rparr>))) ''pgSchema''
     = Some (JStr ''public'')"
  by (simp add: connect_defs sample_defs assemble_schema_def)

subsection \<open>The choice of the client\<close>

text \<open>
  C5, as amended. The choice depends on the configuration alone. When the hosted client
  is not forced and the connection string (that of the pool options, else that of the
  environment) is not empty and parses with the host name \<^verbatim>\<open>127.0.0.1\<close> or
  \<^verbatim>\<open>localhost\<close>, the client is a local pool, built from the pool options when there
  are some and from the connection string otherwise. When the hosted client is forced,
  or there is no connection string or an empty one, or the string parses with another
  host name, the client is hosted: a hosted pool on the pool options when there are
  some, the default hosted client otherwise. When the hosted client is not forced and
  the non-empty connection string does not parse, no client is built: the choice throws
  the parser's error.
\<close>

theorem select_client_cases:
  "(\<not> forceUseVercelPostgres a \<and> resolve_connectionString env a = Some cs \<and> cs \<noteq> []
      \<and> URL_hostname w cs = Inr h \<and> (h = ''127.0.0.1'' \<or> h = ''localhost'')
    \<longrightarrow> select_client w env a =
          Inr (pg_Pool (case poolOptions a of
                          None \<Rightarrow> \<lparr>connectionString = Some cs, other_options = []\<rparr>
                        | Some po \<Rightarrow> po)))
   \<and> (forceUseVercelPostgres a \<or> resolve_connectionString env a = None
      \<or> resolve_connectionString env a = Some []
      \<or> (resolve_connectionString env a = Some cs \<and> URL_hostname w cs = Inr h
          \<and> h \<noteq> ''127.0.0.1'' \<and> h \<noteq> ''localhost'')
    \<longrightarrow> select_client w env a =
          Inr (case poolOptions a of None \<Rightarrow> sql | Some po \<Rightarrow> VercelPool po))
   \<and> (\<not> forceUseVercelPostgres a \<and> resolve_connectionString env a = Some cs \<and> cs \<noteq> []
      \<and> URL_hostname w cs = Inl e
    \<longrightarrow> select_client w env a = Inl e)"
  by (auto simp: select_client_def hosted_client_def local_client_def)

theorem select_client_cases_witness:
  "select_client sample_world sample_env sample_adapter = Inr local_pool
   \<and> select_client sample_world
        (sample_env\<lparr>POSTGRES_URL := Some ''postgres://db.example.com/payload''\<rparr>)
        sample_adapter = Inr sql
   \<and> select_client sample_world (sample_env\<lparr>POSTGRES_URL := Some ''localhost/payload''\<rparr>)
        sample_adapter = Inl invalid_url"
  using
    select_client_cases [of sample_adapter sample_env "''postgres://localhost:5432/payload''"
      sample_world "''localhost''" invalid_url]
    select_client_cases [of sample_adapter
      "sample_env\<lparr>POSTGRES_URL := Some ''postgres://db.example.com/payload''\<rparr>"
      "''postgres://db.example.com/payload''" sample_world "''db.example.com''" invalid_url]
    select_client_cases [of sample_adapter
      "sample_env\<lparr>POSTGRES_URL := Some ''localhost/payload''\<rparr>"
      "''localhost/payload''" sample_world "''localhost''" invalid_url]
  by (simp add: sample_defs resolve_connectionString_def)

text \<open>
  A connection string that has no host name \<^verbatim>\<open>127.0.0.1\<close> or \<^verbatim>\<open>localhost\<close>,
  since it does not parse, and for which no hosted client is built.
\<close>

theorem select_client_throws_counterexample:
  "\<not> forceUseVercelPostgres sample_adapter
   \<and> resolve_connectionString (sample_env\<lparr>POSTGRES_URL := Some ''localhost/payload''\<rparr>)
        sample_adapter = Some ''localhost/payload''
   \<and> URL_hostname sample_world ''localhost/payload'' = Inl invalid_url
   \<and> select_client sample_world (sample_env\<lparr>POSTGRES_URL := Some ''localhost/payload''\<rparr>)
        sample_adapter = Inl invalid_url"
  by (simp add: connect_defs sample_defs)

text \<open>
  C10, as amended. When the hosted client is not forced and the connection string is
  not empty and does not parse, the choice of the client throws the parser's error, and
  \<^verbatim>\<open>connect\<close> catches it. When the message of that error is absent or is a string
  that takes the error branch (it does not match the pattern, or the creation of the
  database is disabled), the call logs the error with
  \<^verbatim>\<open>Error: cannot connect to Postgres. Details: \<close> and the message, calls
  \<open>rejectInitializing\<close> when it is a function, and exits with status 1. These are all
  its events: no client is selected, the hosted one included.
\<close>

theorem invalid_url_is_fatal:
  assumes "\<not> forceUseVercelPostgres a"
    and "resolve_connectionString env a = Some cs"
    and "cs \<noteq> []"
    and "URL_hostname w cs = Inl err"
    and "get_prop err ''message'' = Inr m"
    and "m = JUndefined \<or> m = JNull
         \<or> (\<exists>s. m = JStr s \<and> (\<not> database_does_not_exist s \<or> disableCreateDatabase a))"
  shows "select_client w env a = Inl err
    \<and> connect (Suc fuel) w env i a opts =
        Some (a\<lparr>schema := assemble_schema a\<rparr>,
          [Logger_error err (''Error: cannot connect to Postgres. Details: '' @ to_string m)]
            @ (case rejectInitializing a of None \<Rightarrow> [] | Some f \<Rightarrow> [Reject_initializing])
            @ [Process_exit 1],
          Exited 1)"
proof -
  have s: "select_client w env a = Inl err"
    using assms(1-4) by (simp add: select_client_def)
  have "select_client w env (a\<lparr>schema := assemble_schema a\<rparr>) = Inl err"
    using assms(1-4) by (simp add: select_client_def resolve_connectionString_def)
  then have t: "connect_try w env i (a\<lparr>schema := assemble_schema a\<rparr>) opts
      = (a\<lparr>schema := assemble_schema a\<rparr>, [], Inl err)"
    by (simp add: connect_try_def)
  have "connect_catch w i (a\<lparr>schema := assemble_schema a\<rparr>) opts err
      = Catch_done (fatal (a\<lparr>schema := assemble_schema a\<rparr>) err m) (Exited 1)"
    using assms(5,6) by (auto simp: connect_catch_def)
  with t s show ?thesis
    by (simp add: fatal_def terminal_failure_def)
qed

theorem invalid_url_is_fatal_witness:
  "select_client sample_world (sample_env\<lparr>POSTGRES_URL := Some ''localhost/payload''\<rparr>)
     sample_adapter = Inl invalid_url
   \<and> connect 1 sample_world (sample_env\<lparr>POSTGRES_URL := Some ''localhost/payload''\<rparr>) 0
        sample_adapter \<lparr>hotReload = False\<rparr>
     = Some (sample_adapter\<lparr>schema := assemble_schema sample_adapter\<rparr>,
         [Logger_error invalid_url ''Error: cannot connect to Postgres. Details: Invalid URL'',
          Reject_initializing, Process_exit 1],
         Exited 1)"
proof -
  let ?env = "sample_env\<lparr>POSTGRES_URL := Some ''localhost/payload''\<rparr>"
  have f: "\<not> forceUseVercelPostgres sample_adapter" by (simp add: sample_adapter_def)
  have c: "resolve_connectionString ?env sample_adapter = Some ''localhost/payload''"
    by (simp add: resolve_connectionString_def sample_defs)
  have n: "''localhost/payload'' \<noteq> []" by simp
  have u: "URL_hostname sample_world ''localhost/payload'' = Inl invalid_url"
    by (simp add: sample_defs)
  have m: "get_prop invalid_url ''message'' = Inr (JStr ''Invalid URL'')"
    by (simp add: invalid_url_def)
  have d: "JStr ''Invalid URL'' = JUndefined \<or> JStr ''Invalid URL'' = JNull
     \<or> (\<exists>s. JStr ''Invalid URL'' = JStr s
           \<and> (\<not> database_does_not_exist s \<or> disableCreateDatabase sample_adapter))"
    using invalid_url_no_match by simp
  from invalid_url_is_fatal [OF f c n u m d, of 0 0 "\<lparr>hotReload = False\<rparr>"] show ?thesis
    by (simp add: sample_adapter_def)
qed

text \<open>
  The empty connection string is defined and does not parse, and yet the choice of the
  client throws nothing: the URL is not parsed at all and the default hosted client is
  selected.
\<close>

theorem empty_connection_string_counterexample:
  "\<not> forceUseVercelPostgres sample_adapter
   \<and> resolve_connectionString (sample_env\<lparr>POSTGRES_URL := Some ''''\<rparr>) sample_adapter = Some ''''
   \<and> URL_hostname sample_world '''' = Inl invalid_url
   \<and> select_client sample_world (sample_env\<lparr>POSTGRES_URL := Some ''''\<rparr>) sample_adapter
     = Inr sql"
  by (simp add: connect_defs sample_defs)

subsection \<open>The catch block\<close>

text \<open>
  A failure thrown after the try block, by \<open>createExtensions\<close>, \<open>pushDevSchema\<close> or
  \<open>migrate\<close>, is outside the catch block: the call rejects with it, whatever its
  message.
\<close>

lemma later_failures_propagate:
  assumes "connect_try w env i (a\<lparr>schema := assemble_schema a\<rparr>) opts = (a', evs, Inr ())"
    and "createExtensions w i = Inl e"
  shows "connect (Suc fuel) w env i a opts = Some (a', evs @ [Create_extensions], Threw e)"
  using assms by (simp add: connect_post_def)

text \<open>
  C3, as amended. When the try block (lines 69-107) throws a failure whose message is a
  string that matches \<^verbatim>\<open>/database .* does not exist/i\<close> and the creation of the
  database is not disabled, the call logs the message with its first character put in
  upper case by \<^verbatim>\<open>toUpperCase\<close>, followed by \<^verbatim>\<open>, creating...\<close>, and calls
  \<open>createDatabase\<close> once. When that resolves to a truthy value, \<^verbatim>\<open>connect\<close> is
  called again with the same options, and the outer call ends as the inner call ends,
  with no event of its own after those of the inner call. When it resolves to a falsy
  value, \<open>rejectInitializing\<close> is called when it is a function and the process exits
  with status 1. (When it rejects, the call rejects with the same error.)
\<close>

theorem missing_database_is_created:
  assumes "connect_try w env i (a\<lparr>schema := assemble_schema a\<rparr>) opts = (a', evs, Inl err)"
    and "get_prop err ''message'' = Inr (JStr s)"
    and "database_does_not_exist s"
    and "\<not> disableCreateDatabase a"
  shows "connect (Suc fuel) w env i a opts =
    (case createDatabase w i of
       Inl e \<Rightarrow>
         Some (a', evs @ [Logger_info (toUpperCase w (take 1 s) @ drop 1 s
                                  @ '', creating...''),
                     Create_database],
               Threw e)
     | Inr isCreated \<Rightarrow>
         if truthy isCreated then
           map_option
             (\<lambda>(a'', evs'', out).
                (a'', evs @ [Logger_info (toUpperCase w (take 1 s) @ drop 1 s
                                  @ '', creating...''),
                     Create_database,
                            Call_connect opts] @ evs'', out))
             (connect fuel w env (Suc i) a' opts)
         else
           Some (a', evs @ [Logger_info (toUpperCase w (take 1 s) @ drop 1 s
                                  @ '', creating...''),
                     Create_database]
                   @ (case rejectInitializing a of None \<Rightarrow> [] | Some f \<Rightarrow> [Reject_initializing])
                   @ [Process_exit 1],
                 Exited 1))"
proof -
  from connect_try_fields [OF assms(1)] assms(4)
  have d: "\<not> disableCreateDatabase a'" and r: "rejectInitializing a' = rejectInitializing a"
    by simp_all
  show ?thesis
    using assms(1-3) d r
    by (simp add: connect_catch_def capitalize_def terminal_failure_def
          split: sum.splits option.splits)
qed

theorem missing_database_is_created_witness:
  "connect 2
      (sample_world\<lparr>client_connect :=
         (\<lambda>i. if i = 0 then Inl missing_database else Inr (Some i))\<rparr>)
      sample_env 0 sample_adapter \<lparr>hotReload = False\<rparr>
   = Some (connected_adapter local_pool,
       [Client_selected local_pool, Client_connect,
        Logger_info (''Database '' @ [CHR 0x22] @ ''payload'' @ [CHR 0x22]
                     @ '' does not exist, creating...''),
        Create_database, Call_connect \<lparr>hotReload = False\<rparr>,
        Client_selected local_pool, Client_connect, On_error 1,
        Create_extensions, Push_dev_schema, Resolve_initializing],
       Returned)
   \<and> connect 1
      (sample_world\<lparr>client_connect := (\<lambda>i. Inl missing_database),
                    createDatabase := (\<lambda>i. Inr (JBool False))\<rparr>)
      sample_env 0 sample_adapter \<lparr>hotReload = False\<rparr>
   = Some (sample_adapter\<lparr>schema := assemble_schema sample_adapter\<rparr>,
       [Client_selected local_pool, Client_connect,
        Logger_info (''Database '' @ [CHR 0x22] @ ''payload'' @ [CHR 0x22]
                     @ '' does not exist, creating...''),
        Create_database, Reject_initializing, Process_exit 1],
       Exited 1)"
proof
  let ?w = "sample_world\<lparr>client_connect :=
    (\<lambda>i. if i = 0 then Inl missing_database else Inr (Some i))\<rparr>"
  let ?v = "sample_world\<lparr>client_connect := (\<lambda>i. Inl missing_database),
    createDatabase := (\<lambda>i. Inr (JBool False))\<rparr>"
  let ?a' = "sample_adapter\<lparr>schema := assemble_schema sample_adapter\<rparr>"
  let ?s = "''database '' @ [CHR 0x22] @ ''payload'' @ [CHR 0x22] @ '' does not exist''"
  have m: "get_prop missing_database ''message'' = Inr (JStr ?s)"
    by (simp add: missing_database_def)
  have d: "\<not> disableCreateDatabase sample_adapter" by (simp add: sample_adapter_def)
  have t: "connect_try ?w sample_env 0 ?a' \<lparr>hotReload = False\<rparr>
      = (?a', [Client_selected local_pool, Client_connect], Inl missing_database)"
    by (simp add: connect_defs sample_defs)
  have r: "connect 1 ?w sample_env 1 ?a' \<lparr>hotReload = False\<rparr>
      = Some (connected_adapter local_pool,
          [Client_selected local_pool, Client_connect, On_error 1,
           Create_extensions, Push_dev_schema, Resolve_initializing], Returned)"
    by (simp add: connect_defs sample_defs assemble_schema_def)
  have "connect (Suc 1) ?w sample_env 0 sample_adapter \<lparr>hotReload = False\<rparr> =
    (case createDatabase ?w 0 of
       Inl e \<Rightarrow>
         Some (?a', [Client_selected local_pool, Client_connect]
                 @ [Logger_info (toUpperCase ?w (take 1 ?s) @ drop 1 ?s @ '', creating...''),
                    Create_database],
               Threw e)
     | Inr isCreated \<Rightarrow>
         if truthy isCreated then
           map_option
             (\<lambda>(a'', evs'', out).
                (a'', [Client_selected local_pool, Client_connect]
                    @ [Logger_info (toUpperCase ?w (take 1 ?s) @ drop 1 ?s @ '', creating...''),
                    Create_database,
                       Call_connect \<lparr>hotReload = False\<rparr>] @ evs'', out))
             (connect 1 ?w sample_env (Suc 0) ?a' \<lparr>hotReload = False\<rparr>)
         else
           Some (?a', [Client_selected local_pool, Client_connect]
                   @ [Logger_info (toUpperCase ?w (take 1 ?s) @ drop 1 ?s @ '', creating...''),
                    Create_database]
                   @ (case rejectInitializing sample_adapter of
                        None \<Rightarrow> [] | Some f \<Rightarrow> [Reject_initializing])
                   @ [Process_exit 1],
                 Exited 1))"
    by (rule missing_database_is_created [OF t m missing_database_matches d])
  also have "\<dots> = Some (connected_adapter local_pool,
       [Client_selected local_pool, Client_connect,
        Logger_info (''Database '' @ [CHR 0x22] @ ''payload'' @ [CHR 0x22]
                     @ '' does not exist, creating...''),
        Create_database, Call_connect \<lparr>hotReload = False\<rparr>,
        Client_selected local_pool, Client_connect, On_error 1,
        Create_extensions, Push_dev_schema, Resolve_initializing],
       Returned)"
    using r
    by (simp add: sample_world_def upper_d del: connect.simps)
  finally show "connect 2 ?w sample_env 0 sample_adapter \<lparr>hotReload = False\<rparr>
   = Some (connected_adapter local_pool,
       [Client_selected local_pool, Client_connect,
        Logger_info (''Database '' @ [CHR 0x22] @ ''payload'' @ [CHR 0x22]
                     @ '' does not exist, creating...''),
        Create_database, Call_connect \<lparr>hotReload = False\<rparr>,
        Client_selected local_pool, Client_connect, On_error 1,
        Create_extensions, Push_dev_schema, Resolve_initializing],
       Returned)"
    by (simp only: Suc_1)
  have t': "connect_try ?v sample_env 0 ?a' \<lparr>hotReload = False\<rparr>
      = (?a', [Client_selected local_pool, Client_connect], Inl missing_database)"
    by (simp add: connect_defs sample_defs)
  from missing_database_is_created [OF t' m missing_database_matches d, of 0]
  show "connect 1 ?v sample_env 0 sample_adapter \<lparr>hotReload = False\<rparr>
   = Some (?a',
       [Client_selected local_pool, Client_connect,
        Logger_info (''Database '' @ [CHR 0x22] @ ''payload'' @ [CHR 0x22]
                     @ '' does not exist, creating...''),
        Create_database, Reject_initializing, Process_exit 1],
       Exited 1)"
    by (simp add: sample_world_def sample_adapter_def upper_d del: connect.simps)
qed

text \<open>
  A failure with a matching message that is thrown after the try block, here by
  \<open>pushDevSchema\<close>, while the creation of the database is enabled: nothing is
  logged, \<open>createDatabase\<close> is not called and the call rejects with the failure.
\<close>

theorem later_failure_is_not_caught_counterexample:
  "get_prop missing_database ''message''
     = Inr (JStr (''database '' @ [CHR 0x22] @ ''payload'' @ [CHR 0x22] @ '' does not exist''))
   \<and> database_does_not_exist
        (''database '' @ [CHR 0x22] @ ''payload'' @ [CHR 0x22] @ '' does not exist'')
   \<and> \<not> disableCreateDatabase sample_adapter
   \<and> connect 1 (sample_world\<lparr>pushDevSchema := (\<lambda>i. Inl missing_database)\<rparr>)
        sample_env 0 sample_adapter \<lparr>hotReload = False\<rparr>
     = Some (connected_adapter local_pool,
         [Client_selected local_pool, Client_connect, On_error 0,
          Create_extensions, Push_dev_schema],
         Threw missing_database)"
  using missing_database_matches
  by (simp add: connect_defs sample_defs assemble_schema_def
           del: database_does_not_exist.simps)

text \<open>
  C4, as amended. When the try block (lines 69-107) throws a failure whose message is absent
  (\<^verbatim>\<open>undefined\<close> or \<^verbatim>\<open>null\<close>), or is a string that does not match the pattern,
  or is a string while the creation of the database is disabled, the call logs at error
  level the failure itself and the text
  \<^verbatim>\<open>Error: cannot connect to Postgres. Details: \<close> followed by the message, then
  calls \<open>rejectInitializing\<close> when it is a function, then exits with status 1. In
  particular a missing-database failure does so whenever the creation of the database
  is disabled.
\<close>

theorem other_failures_are_fatal:
  assumes "connect_try w env i (a\<lparr>schema := assemble_schema a\<rparr>) opts = (a', evs, Inl err)"
    and "get_prop err ''message'' = Inr m"
    and "m = JUndefined \<or> m = JNull
         \<or> (\<exists>s. m = JStr s \<and> (\<not> database_does_not_exist s \<or> disableCreateDatabase a))"
  shows "connect (Suc fuel) w env i a opts =
    Some (a', evs @ [Logger_error err
                       (''Error: cannot connect to Postgres. Details: '' @ to_string m)]
              @ (case rejectInitializing a of None \<Rightarrow> [] | Some f \<Rightarrow> [Reject_initializing])
              @ [Process_exit 1],
          Exited 1)"
proof -
  from connect_try_fields [OF assms(1)]
  have d: "disableCreateDatabase a' = disableCreateDatabase a"
    and r: "rejectInitializing a' = rejectInitializing a"
    by simp_all
  have "connect_catch w i a' opts err = Catch_done (fatal a' err m) (Exited 1)"
    using assms(2,3) d by (auto simp: connect_catch_def)
  then show ?thesis
    using assms(1) r by (simp add: fatal_def terminal_failure_def)
qed

theorem other_failures_are_fatal_witness:
  "connect 1 (sample_world\<lparr>client_connect := always_refused\<rparr>)
      sample_env 0 sample_adapter \<lparr>hotReload = False\<rparr>
   = Some (sample_adapter\<lparr>schema := assemble_schema sample_adapter\<rparr>,
       [Client_selected local_pool, Client_connect,
        Logger_error refused
          ''Error: cannot connect to Postgres. Details: connect ECONNREFUSED 127.0.0.1:5432'',
        Reject_initializing, Process_exit 1],
       Exited 1)
   \<and> connect 1 (sample_world\<lparr>client_connect := (\<lambda>i. Inl missing_database)\<rparr>)
      sample_env 0 (sample_adapter\<lparr>disableCreateDatabase := True\<rparr>) \<lparr>hotReload = False\<rparr>
   = Some (sample_adapter\<lparr>disableCreateDatabase := True,
                           schema := assemble_schema sample_adapter\<rparr>,
       [Client_selected local_pool, Client_connect,
        Logger_error missing_database
          (''Error: cannot connect to Postgres. Details: database '' @ [CHR 0x22]
           @ ''payload'' @ [CHR 0x22] @ '' does not exist''),
        Reject_initializing, Process_exit 1],
       Exited 1)"
proof
  let ?w = "sample_world\<lparr>client_connect := always_refused\<rparr>"
  let ?a' = "sample_adapter\<lparr>schema := assemble_schema sample_adapter\<rparr>"
  have t: "connect_try ?w sample_env 0 ?a' \<lparr>hotReload = False\<rparr>
      = (?a', [Client_selected local_pool, Client_connect], Inl refused)"
    by (simp add: connect_defs sample_defs)
  have m: "get_prop refused ''message'' = Inr (JStr ''connect ECONNREFUSED 127.0.0.1:5432'')"
    by (simp add: refused_def)
  have n: "JStr ''connect ECONNREFUSED 127.0.0.1:5432'' = JUndefined
     \<or> JStr ''connect ECONNREFUSED 127.0.0.1:5432'' = JNull
     \<or> (\<exists>s. JStr ''connect ECONNREFUSED 127.0.0.1:5432'' = JStr s
           \<and> (\<not> database_does_not_exist s \<or> disableCreateDatabase sample_adapter))"
    using refused_no_match by simp
  from other_failures_are_fatal [OF t m n, of 0]
  show "connect 1 ?w sample_env 0 sample_adapter \<lparr>hotReload = False\<rparr>
   = Some (?a',
       [Client_selected local_pool, Client_connect,
        Logger_error refused
          ''Error: cannot connect to Postgres. Details: connect ECONNREFUSED 127.0.0.1:5432'',
        Reject_initializing, Process_exit 1],
       Exited 1)"
    by (simp add: sample_adapter_def)
  let ?v = "sample_world\<lparr>client_connect := (\<lambda>i. Inl missing_database)\<rparr>"
  let ?b = "sample_adapter\<lparr>disableCreateDatabase := True\<rparr>"
  let ?s = "''database '' @ [CHR 0x22] @ ''payload'' @ [CHR 0x22] @ '' does not exist''"
  have t': "connect_try ?v sample_env 0 (?b\<lparr>schema := assemble_schema ?b\<rparr>)
      \<lparr>hotReload = False\<rparr>
      = (?b\<lparr>schema := assemble_schema ?b\<rparr>, [Client_selected local_pool, Client_connect],
         Inl missing_database)"
    by (simp add: connect_defs sample_defs)
  have m': "get_prop missing_database ''message'' = Inr (JStr ?s)"
    by (simp add: missing_database_def)
  have n': "JStr ?s = JUndefined \<or> JStr ?s = JNull
     \<or> (\<exists>s. JStr ?s = JStr s \<and> (\<not> database_does_not_exist s \<or> disableCreateDatabase ?b))"
    by (simp add: sample_adapter_def del: database_does_not_exist.simps)
  from other_failures_are_fatal [OF t' m' n', of 0]
  show "connect 1 ?v sample_env 0 ?b \<lparr>hotReload = False\<rparr>
   = Some (sample_adapter\<lparr>disableCreateDatabase := True,
                           schema := assemble_schema sample_adapter\<rparr>,
       [Client_selected local_pool, Client_connect,
        Logger_error missing_database
          (''Error: cannot connect to Postgres. Details: database '' @ [CHR 0x22]
           @ ''payload'' @ [CHR 0x22] @ '' does not exist''),
        Reject_initializing, Process_exit 1],
       Exited 1)"
    by (simp add: sample_adapter_def assemble_schema_def del: connect.simps)
qed

text \<open>
  Outside these cases no error is logged and the process does not exit. The catch block
  itself raises when it reads \<^verbatim>\<open>message\<close> of a thrown \<^verbatim>\<open>undefined\<close> or
  \<^verbatim>\<open>null\<close>, or calls \<^verbatim>\<open>match\<close> on a message that is neither absent nor a
  string: a \<^verbatim>\<open>client.connect()\<close> that rejects with \<^verbatim>\<open>undefined\<close> makes the
  call reject with a \<^verbatim>\<open>TypeError\<close>. And a failure thrown after the try block is
  not caught: when \<open>createExtensions\<close> rejects with an error whose message does not
  match the pattern, the call rejects with that error.
\<close>

theorem uncaught_failures_counterexample:
  "connect 1 (sample_world\<lparr>client_connect := (\<lambda>i. Inl JUndefined)\<rparr>)
      sample_env 0 sample_adapter \<lparr>hotReload = False\<rparr>
   = Some (sample_adapter\<lparr>schema := assemble_schema sample_adapter\<rparr>,
       [Client_selected local_pool, Client_connect],
       Threw (TypeError ''Cannot read properties of undefined''))
   \<and> get_prop refused ''message'' = Inr (JStr ''connect ECONNREFUSED 127.0.0.1:5432'')
   \<and> \<not> database_does_not_exist ''connect ECONNREFUSED 127.0.0.1:5432''
   \<and> connect 1 (sample_world\<lparr>createExtensions := (\<lambda>i. Inl refused)\<rparr>)
      sample_env 0 sample_adapter \<lparr>hotReload = False\<rparr>
   = Some (connected_adapter local_pool,
       [Client_selected local_pool, Client_connect, On_error 0, Create_extensions],
       Threw refused)"
  using refused_no_match
  by (simp add: connect_defs sample_defs assemble_schema_def
           del: database_does_not_exist.simps)

lemma connect_catch_raises:
  "connect_catch w i a opts JUndefined
     = Catch_done [] (Threw (TypeError ''Cannot read properties of undefined''))"
  "connect_catch w i a opts (JObj [(''message'', JNum n)])
     = Catch_done [] (Threw (TypeError ''err.message.match is not a function''))"
  by (simp_all add: connect_catch_def)

subsection \<open>After the connection\<close>

lemma connect_try_no_post:
  assumes "connect_try w env i a opts = (a', evs, r)"
  shows "\<forall>e\<in>set evs. \<not> post_event e"
  using assms
  by (auto simp: connect_try_def connectWithReconnect_def attach_listener_def Let_def
           split: sum.splits prod.splits if_splits option.splits)

lemma connect_catch_no_post:
  "connect_catch w i a opts err = Catch_done evs out \<Longrightarrow> \<forall>e\<in>set evs. \<not> post_event e"
  "connect_catch w i a opts err = Catch_connect evs \<Longrightarrow> \<forall>e\<in>set evs. \<not> post_event e"
  by (auto simp: connect_catch_def fatal_def terminal_failure_def
           split: sum.splits jsval.splits if_splits option.splits)

lemma connect_catch_not_Returned:
  "connect_catch w i a opts err = Catch_done evs out \<Longrightarrow> out \<noteq> Returned"
  by (auto simp: connect_catch_def split: sum.splits jsval.splits if_splits)

lemma connect_post_order:
  assumes "connect_post w env i a = (evs, out)"
  shows "\<exists>rest. evs @ rest = post_order env a \<and> (out = Returned \<longrightarrow> rest = [])"
  using assms
  by (auto simp: connect_post_def post_order_def dev_push_def resolve_events_def
           split: sum.splits if_splits option.splits)

lemma post_order_frame:
  "post_order env (a\<lparr>schema := x, drizzle := y\<rparr>) = post_order env a"
  by (simp add: post_order_def)

lemma connect_post_order_run:
  assumes "connect fuel w env i a opts = Some (a', evs, out)"
  shows "\<exists>pre post rest. evs = pre @ post \<and> (\<forall>e\<in>set pre. \<not> post_event e)
           \<and> post @ rest = post_order env a \<and> (out = Returned \<longrightarrow> rest = [])"
  using assms
proof (induction fuel arbitrary: i a a' evs out)
  case 0
  then show ?case by simp
next
  case (Suc fuel)
  obtain a1 evs1 r1 where
    t: "connect_try w env i (a\<lparr>schema := assemble_schema a\<rparr>) opts = (a1, evs1, r1)"
    by (cases "connect_try w env i (a\<lparr>schema := assemble_schema a\<rparr>) opts") auto
  from connect_try_frame [OF t]
  have a1: "a1 = a\<lparr>schema := assemble_schema a, drizzle := drizzle a1\<rparr>" by simp
  have po: "post_order env a1 = post_order env a"
    by (subst a1) (rule post_order_frame)
  note np1 = connect_try_no_post [OF t]
  show ?case
  proof (cases r1)
    case (Inr u)
    obtain evs2 out2 where p: "connect_post w env i a1 = (evs2, out2)"
      by (cases "connect_post w env i a1") auto
    with Suc.prems t Inr have e: "evs = evs1 @ evs2" and o: "out = out2" by auto
    from connect_post_order [OF p] po obtain rest where
      "evs2 @ rest = post_order env a" "out2 = Returned \<longrightarrow> rest = []" by auto
    with e o np1 show ?thesis by blast
  next
    case (Inl err)
    show ?thesis
    proof (cases "connect_catch w i a1 opts err")
      case (Catch_done evs2 out2)
      with Suc.prems t Inl have e: "evs = (evs1 @ evs2) @ []" and o: "out = out2" by auto
      from connect_catch_no_post(1) [OF Catch_done] np1
      have "\<forall>e\<in>set (evs1 @ evs2). \<not> post_event e" by auto
      moreover have "[] @ post_order env a = post_order env a" by simp
      moreover from connect_catch_not_Returned [OF Catch_done] o
      have "out = Returned \<longrightarrow> post_order env a = []" by simp
      ultimately show ?thesis using e by blast
    next
      case (Catch_connect evs2)
      with Suc.prems t Inl obtain evs3 where
        r: "connect fuel w env (Suc i) a1 opts = Some (a', evs3, out)"
        and e: "evs = evs1 @ evs2 @ evs3"
        by (auto split: option.splits)
      from Suc.IH [OF r] po obtain pre post rest where
        h: "evs3 = pre @ post" "\<forall>e\<in>set pre. \<not> post_event e"
           "post @ rest = post_order env a" "out = Returned \<longrightarrow> rest = []"
        by auto
      from connect_catch_no_post(2) [OF Catch_connect] np1 h(2)
      have "\<forall>e\<in>set (evs1 @ evs2 @ pre). \<not> post_event e" by auto
      moreover from e h(1) have "evs = (evs1 @ evs2 @ pre) @ post" by simp
      ultimately show ?thesis using h(3,4) by blast
    qed
  qed
qed

text \<open>
  C6. In the events of every call of \<^verbatim>\<open>connect\<close>, the events of lines 133-150 come
  after all the others, connection included, and in this order: first
  \<open>createExtensions\<close>; then \<open>pushDevSchema\<close>, when \<^verbatim>\<open>NODE_ENV\<close> is not
  \<^verbatim>\<open>production\<close>, \<^verbatim>\<open>PAYLOAD_MIGRATING\<close> is not \<^verbatim>\<open>true\<close> and \<open>push\<close> is
  not \<^verbatim>\<open>false\<close>; then \<open>resolveInitializing\<close>, when it is a function; then, when
  \<^verbatim>\<open>NODE_ENV\<close> is \<^verbatim>\<open>production\<close> and there are production migrations,
  \<open>migrate\<close> with exactly those migrations. A call that returns has produced all of
  them; a call that ends otherwise has produced the first few of them, or none. And a
  call whose try block succeeds and whose collaborators resolve does return, having
  produced the events of the try block and then all of these, in this order.
\<close>

theorem post_connect_order:
  "(connect fuel w env i a opts = Some (a', evs, out) \<longrightarrow>
      (\<exists>pre post rest.
         evs = pre @ post \<and> (\<forall>e\<in>set pre. \<not> post_event e)
         \<and> post @ rest =
             [Create_extensions]
             @ (if NODE_ENV env \<noteq> Some ''production'' \<and> PAYLOAD_MIGRATING env \<noteq> Some ''true''
                   \<and> push a \<noteq> Some False
                then [Push_dev_schema] else [])
             @ (case resolveInitializing a of None \<Rightarrow> [] | Some f \<Rightarrow> [Resolve_initializing])
             @ (if NODE_ENV env = Some ''production''
                then (case prodMigrations a of None \<Rightarrow> [] | Some ms \<Rightarrow> [Migrate ms])
                else [])
         \<and> (out = Returned \<longrightarrow> rest = [])))
   \<and> (connect_try w env i (a\<lparr>schema := assemble_schema a\<rparr>) opts = (a1, evs1, Inr ())
        \<and> createExtensions w i = Inr () \<and> pushDevSchema w i = Inr () \<and> migrate w i = Inr ()
      \<longrightarrow> connect (Suc n) w env i a opts =
           Some (a1,
             evs1 @ [Create_extensions]
             @ (if NODE_ENV env \<noteq> Some ''production'' \<and> PAYLOAD_MIGRATING env \<noteq> Some ''true''
                   \<and> push a \<noteq> Some False
                then [Push_dev_schema] else [])
             @ (case resolveInitializing a of None \<Rightarrow> [] | Some f \<Rightarrow> [Resolve_initializing])
             @ (if NODE_ENV env = Some ''production''
                then (case prodMigrations a of None \<Rightarrow> [] | Some ms \<Rightarrow> [Migrate ms])
                else []),
             Returned))"
proof (intro conjI impI)
  assume "connect fuel w env i a opts = Some (a', evs, out)"
  from connect_post_order_run [OF this]
  show "\<exists>pre post rest.
         evs = pre @ post \<and> (\<forall>e\<in>set pre. \<not> post_event e)
         \<and> post @ rest =
             [Create_extensions]
             @ (if NODE_ENV env \<noteq> Some ''production'' \<and> PAYLOAD_MIGRATING env \<noteq> Some ''true''
                   \<and> push a \<noteq> Some False
                then [Push_dev_schema] else [])
             @ (case resolveInitializing a of None \<Rightarrow> [] | Some f \<Rightarrow> [Resolve_initializing])
             @ (if NODE_ENV env = Some ''production''
                then (case prodMigrations a of None \<Rightarrow> [] | Some ms \<Rightarrow> [Migrate ms])
                else [])
         \<and> (out = Returned \<longrightarrow> rest = [])"
    unfolding post_order_def .
next
  assume h: "connect_try w env i (a\<lparr>schema := assemble_schema a\<rparr>) opts = (a1, evs1, Inr ())
        \<and> createExtensions w i = Inr () \<and> pushDevSchema w i = Inr () \<and> migrate w i = Inr ()"
  then have t: "connect_try w env i (a\<lparr>schema := assemble_schema a\<rparr>) opts = (a1, evs1, Inr ())"
    by simp
  from connect_try_frame [OF t]
  have a1: "a1 = a\<lparr>schema := assemble_schema a, drizzle := drizzle a1\<rparr>" by simp
  have po: "post_order env a1 = post_order env a"
    by (subst a1) (rule post_order_frame)
  have "connect_post w env i a1 = (post_order env a1, Returned)"
    using h
    by (simp add: connect_post_def post_order_def dev_push_def resolve_events_def
          split: option.splits)
  with t po have "connect (Suc n) w env i a opts = Some (a1, evs1 @ post_order env a, Returned)"
    by simp
  then show "connect (Suc n) w env i a opts =
           Some (a1,
             evs1 @ [Create_extensions]
             @ (if NODE_ENV env \<noteq> Some ''production'' \<and> PAYLOAD_MIGRATING env \<noteq> Some ''true''
                   \<and> push a \<noteq> Some False
                then [Push_dev_schema] else [])
             @ (case resolveInitializing a of None \<Rightarrow> [] | Some f \<Rightarrow> [Resolve_initializing])
             @ (if NODE_ENV env = Some ''production''
                then (case prodMigrations a of None \<Rightarrow> [] | Some ms \<Rightarrow> [Migrate ms])
                else []),
             Returned)"
    unfolding post_order_def .
qed

theorem post_connect_order_witness:
  "connect 1 sample_world (sample_env\<lparr>NODE_ENV := Some ''production''\<rparr>) 0
      (sample_adapter\<lparr>prodMigrations := Some [JStr ''20240101_initial'']\<rparr>) \<lparr>hotReload = False\<rparr>
   = Some ((connected_adapter local_pool)\<lparr>prodMigrations := Some [JStr ''20240101_initial'']\<rparr>,
       [Client_selected local_pool, Client_connect, On_error 0,
        Create_extensions, Resolve_initializing, Migrate [JStr ''20240101_initial'']],
       Returned)
   \<and> connect 1 sample_world sample_env 0 sample_adapter \<lparr>hotReload = False\<rparr>
   = Some (connected_adapter local_pool,
       [Client_selected local_pool, Client_connect, On_error 0,
        Create_extensions, Push_dev_schema, Resolve_initializing],
       Returned)"
proof
  let ?env = "sample_env\<lparr>NODE_ENV := Some ''production''\<rparr>"
  let ?a = "sample_adapter\<lparr>prodMigrations := Some [JStr ''20240101_initial'']\<rparr>"
  let ?a1 = "(connected_adapter local_pool)\<lparr>prodMigrations := Some [JStr ''20240101_initial'']\<rparr>"
  have t: "connect_try sample_world ?env 0 (?a\<lparr>schema := assemble_schema ?a\<rparr>)
      \<lparr>hotReload = False\<rparr>
      = (?a1, [Client_selected local_pool, Client_connect, On_error 0], Inr ())"
    by (simp add: connect_defs sample_defs assemble_schema_def)
  have c: "createExtensions sample_world 0 = Inr ()" "pushDevSchema sample_world 0 = Inr ()"
    "migrate sample_world 0 = Inr ()"
    by (simp_all add: sample_world_def)
  from post_connect_order [of _ sample_world ?env 0 ?a "\<lparr>hotReload = False\<rparr>" _ _ _ ?a1
      "[Client_selected local_pool, Client_connect, On_error 0]" 0] t c
  show "connect 1 sample_world ?env 0 ?a \<lparr>hotReload = False\<rparr>
   = Some (?a1,
       [Client_selected local_pool, Client_connect, On_error 0,
        Create_extensions, Resolve_initializing, Migrate [JStr ''20240101_initial'']],
       Returned)"
    by (simp add: sample_env_def sample_adapter_def del: connect.simps)
  let ?b1 = "connected_adapter local_pool"
  have t': "connect_try sample_world sample_env 0
      (sample_adapter\<lparr>schema := assemble_schema sample_adapter\<rparr>) \<lparr>hotReload = False\<rparr>
      = (?b1, [Client_selected local_pool, Client_connect, On_error 0], Inr ())"
    by (simp add: connect_defs sample_defs)
  from post_connect_order [of _ sample_world sample_env 0 sample_adapter "\<lparr>hotReload = False\<rparr>"
      _ _ _ ?b1 "[Client_selected local_pool, Client_connect, On_error 0]" 0] t' c
  show "connect 1 sample_world sample_env 0 sample_adapter \<lparr>hotReload = False\<rparr>
   = Some (?b1,
       [Client_selected local_pool, Client_connect, On_error 0,
        Create_extensions, Push_dev_schema, Resolve_initializing],
       Returned)"
    by (simp add: sample_env_def sample_adapter_def del: connect.simps)
qed


subsection \<open>Dropping the database\<close>

lemma select_client_schema [simp]:
  "select_client w env (a\<lparr>schema := x\<rparr>) = select_client w env a"
  by (simp add: select_client_def resolve_connectionString_def hosted_client_def
        local_client_def split: option.splits sum.splits)

lemma connect_try_drop:
  assumes "connect_try w env i a opts = (a', evs, r)"
  shows "Drop_database \<in> set evs \<longleftrightarrow>
     (\<exists>c. select_client w env a = Inr c) \<and> (\<exists>x. client_connect w i = Inr x)
     \<and> \<not> hotReload opts \<and> PAYLOAD_DROP_DATABASE env = Some ''true''"
  using assms
  by (auto simp: connect_try_def connectWithReconnect_def attach_listener_def Let_def
           split: sum.splits prod.splits if_splits option.splits)

lemma connect_catch_no_drop:
  "connect_catch w i a opts err = Catch_done evs out \<Longrightarrow> Drop_database \<notin> set evs"
  "connect_catch w i a opts err = Catch_connect evs \<Longrightarrow> Drop_database \<notin> set evs"
  by (auto simp: connect_catch_def fatal_def terminal_failure_def
           split: sum.splits jsval.splits if_splits option.splits)

lemma connect_post_no_drop:
  "connect_post w env i a = (evs, out) \<Longrightarrow> Drop_database \<notin> set evs"
  by (auto simp: connect_post_def resolve_events_def
           split: sum.splits if_splits option.splits)

lemma connect_drop_only_if:
  assumes "connect fuel w env i a opts = Some (a', evs, out)" and "Drop_database \<in> set evs"
  shows "\<not> hotReload opts \<and> PAYLOAD_DROP_DATABASE env = Some ''true''"
  using assms
proof (induction fuel arbitrary: i a a' evs out)
  case 0
  then show ?case by simp
next
  case (Suc fuel)
  obtain a1 evs1 r1 where
    t: "connect_try w env i (a\<lparr>schema := assemble_schema a\<rparr>) opts = (a1, evs1, r1)"
    by (cases "connect_try w env i (a\<lparr>schema := assemble_schema a\<rparr>) opts") auto
  note d1 = connect_try_drop [OF t]
  show ?case
  proof (cases r1)
    case (Inr u)
    obtain evs2 out2 where p: "connect_post w env i a1 = (evs2, out2)"
      by (cases "connect_post w env i a1") auto
    with Suc.prems t Inr have "evs = evs1 @ evs2" by auto
    with Suc.prems(2) connect_post_no_drop [OF p] d1 show ?thesis by auto
  next
    case (Inl err)
    show ?thesis
    proof (cases "connect_catch w i a1 opts err")
      case (Catch_done evs2 out2)
      with Suc.prems t Inl have "evs = evs1 @ evs2" by auto
      with Suc.prems(2) connect_catch_no_drop(1) [OF Catch_done] d1 show ?thesis by auto
    next
      case (Catch_connect evs2)
      with Suc.prems t Inl obtain evs3 where
        r: "connect fuel w env (Suc i) a1 opts = Some (a', evs3, out)"
        and e: "evs = evs1 @ evs2 @ evs3"
        by (auto split: option.splits)
      from e Suc.prems(2) connect_catch_no_drop(2) [OF Catch_connect]
      consider "Drop_database \<in> set evs1" | "Drop_database \<in> set evs3" by auto
      then show ?thesis
      proof cases
        case 1
        with d1 show ?thesis by simp
      next
        case 2
        with Suc.IH [OF r] show ?thesis by simp
      qed
    qed
  qed
qed

lemma connect_try_prefix:
  assumes "connect (Suc fuel) w env i a opts = Some (a', evs, out)"
    and "connect_try w env i (a\<lparr>schema := assemble_schema a\<rparr>) opts = (a1, evs1, r1)"
  shows "\<exists>evs2. evs = evs1 @ evs2"
  using assms
  by (auto split: sum.splits prod.splits catch_result.splits option.splits)

text \<open>
  C7, as amended. In every call of \<^verbatim>\<open>connect\<close>, \<open>dropDatabase\<close> is called only
  if \<open>hotReload\<close> is false and \<^verbatim>\<open>PAYLOAD_DROP_DATABASE\<close> is \<^verbatim>\<open>true\<close>; so a call
  with \<open>hotReload\<close> true never drops the database, whatever the variable. And in every
  call whose first attempt gets a client and whose \<^verbatim>\<open>client.connect()\<close> resolves,
  \<open>dropDatabase\<close> is called if and only if \<open>hotReload\<close> is false and
  \<^verbatim>\<open>PAYLOAD_DROP_DATABASE\<close> is \<^verbatim>\<open>true\<close>: it is called in the try block of that
  attempt, whatever happens afterwards.
\<close>

theorem drop_database_gate:
  "(connect fuel w env i a opts = Some (a', evs, out) \<longrightarrow>
      (Drop_database \<in> set evs \<longrightarrow>
         \<not> hotReload opts \<and> PAYLOAD_DROP_DATABASE env = Some ''true'')
      \<and> ((\<exists>c. select_client w env a = Inr c) \<and> (\<exists>r. client_connect w i = Inr r) \<longrightarrow>
           (Drop_database \<in> set evs \<longleftrightarrow>
              \<not> hotReload opts \<and> PAYLOAD_DROP_DATABASE env = Some ''true'')))
   \<and> ((\<exists>c. select_client w env a = Inr c) \<and> (\<exists>r. client_connect w i = Inr r) \<longrightarrow>
        (Drop_database \<in> set (fst (snd (connect_try w env i
                                          (a\<lparr>schema := assemble_schema a\<rparr>) opts)))
         \<longleftrightarrow> \<not> hotReload opts \<and> PAYLOAD_DROP_DATABASE env = Some ''true''))"
proof (intro conjI impI)
  assume run: "connect fuel w env i a opts = Some (a', evs, out)"
  show "\<not> hotReload opts" if "Drop_database \<in> set evs"
    using connect_drop_only_if [OF run that] by simp
  show "PAYLOAD_DROP_DATABASE env = Some ''true''" if "Drop_database \<in> set evs"
    using connect_drop_only_if [OF run that] by simp
  assume h: "(\<exists>c. select_client w env a = Inr c) \<and> (\<exists>r. client_connect w i = Inr r)"
  have "Drop_database \<in> set evs"
    if g: "\<not> hotReload opts \<and> PAYLOAD_DROP_DATABASE env = Some ''true''"
  proof -
    from run obtain n where n: "fuel = Suc n" by (cases fuel) auto
    obtain a1 evs1 r1 where
      t: "connect_try w env i (a\<lparr>schema := assemble_schema a\<rparr>) opts = (a1, evs1, r1)"
      by (cases "connect_try w env i (a\<lparr>schema := assemble_schema a\<rparr>) opts") auto
    from connect_try_drop [OF t] h g have "Drop_database \<in> set evs1" by simp
    moreover from connect_try_prefix [OF run [unfolded n] t]
    obtain evs2 where "evs = evs1 @ evs2" by blast
    ultimately show ?thesis by simp
  qed
  with connect_drop_only_if [OF run]
  show "Drop_database \<in> set evs \<longleftrightarrow>
      \<not> hotReload opts \<and> PAYLOAD_DROP_DATABASE env = Some ''true''"
    by blast
next
  assume h: "(\<exists>c. select_client w env a = Inr c) \<and> (\<exists>r. client_connect w i = Inr r)"
  obtain a1 evs1 r1 where
    t: "connect_try w env i (a\<lparr>schema := assemble_schema a\<rparr>) opts = (a1, evs1, r1)"
    by (cases "connect_try w env i (a\<lparr>schema := assemble_schema a\<rparr>) opts") auto
  from connect_try_drop [OF t] h t
  show "Drop_database \<in> set (fst (snd (connect_try w env i
                                          (a\<lparr>schema := assemble_schema a\<rparr>) opts)))
         \<longleftrightarrow> \<not> hotReload opts \<and> PAYLOAD_DROP_DATABASE env = Some ''true''"
    by simp
qed

theorem drop_database_gate_witness:
  "connect 1 sample_world (sample_env\<lparr>PAYLOAD_DROP_DATABASE := Some ''true''\<rparr>) 0
      sample_adapter \<lparr>hotReload = False\<rparr>
   = Some (connected_adapter local_pool,
       [Client_selected local_pool, Client_connect, On_error 0,
        Logger_info ''---- DROPPING TABLES SCHEMA(public) ----'', Drop_database,
        Logger_info ''---- DROPPED TABLES ----'',
        Create_extensions, Push_dev_schema, Resolve_initializing],
       Returned)
   \<and> Drop_database \<in> set
        [Client_selected local_pool, Client_connect, On_error 0,
         Logger_info ''---- DROPPING TABLES SCHEMA(public) ----'', Drop_database,
         Logger_info ''---- DROPPED TABLES ----'',
         Create_extensions, Push_dev_schema, Resolve_initializing]
   \<and> connect 1 sample_world (sample_env\<lparr>PAYLOAD_DROP_DATABASE := Some ''true''\<rparr>) 0
      sample_adapter \<lparr>hotReload = True\<rparr>
   = Some (connected_adapter local_pool,
       [Client_selected local_pool, Client_connect, On_error 0,
        Create_extensions, Push_dev_schema, Resolve_initializing],
       Returned)
   \<and> Drop_database \<notin> set
        [Client_selected local_pool, Client_connect, On_error 0,
         Create_extensions, Push_dev_schema, Resolve_initializing]"
proof -
  let ?env = "sample_env\<lparr>PAYLOAD_DROP_DATABASE := Some ''true''\<rparr>"
  have run: "connect 1 sample_world ?env 0 sample_adapter \<lparr>hotReload = False\<rparr>
   = Some (connected_adapter local_pool,
       [Client_selected local_pool, Client_connect, On_error 0,
        Logger_info ''---- DROPPING TABLES SCHEMA(public) ----'', Drop_database,
        Logger_info ''---- DROPPED TABLES ----'',
        Create_extensions, Push_dev_schema, Resolve_initializing],
       Returned)"
    by (simp add: connect_defs sample_defs assemble_schema_def)
  have hot: "connect 1 sample_world ?env 0 sample_adapter \<lparr>hotReload = True\<rparr>
   = Some (connected_adapter local_pool,
       [Client_selected local_pool, Client_connect, On_error 0,
        Create_extensions, Push_dev_schema, Resolve_initializing],
       Returned)"
    by (simp add: connect_defs sample_defs assemble_schema_def)
  have sel: "\<exists>c. select_client sample_world ?env sample_adapter = Inr c"
    by (simp add: connect_defs sample_defs)
  have con: "\<exists>r. client_connect sample_world 0 = Inr r"
    by (simp add: sample_defs)
  have flag: "\<not> hotReload \<lparr>hotReload = False\<rparr> \<and> PAYLOAD_DROP_DATABASE ?env = Some ''true''"
    by (simp add: sample_defs)
  have hot_flag:
    "\<not> (\<not> hotReload \<lparr>hotReload = True\<rparr> \<and> PAYLOAD_DROP_DATABASE ?env = Some ''true'')"
    by simp
  from drop_database_gate [of 1 sample_world ?env 0 sample_adapter "\<lparr>hotReload = False\<rparr>"
      "connected_adapter local_pool"
      "[Client_selected local_pool, Client_connect, On_error 0,
         Logger_info ''---- DROPPING TABLES SCHEMA(public) ----'', Drop_database,
         Logger_info ''---- DROPPED TABLES ----'',
         Create_extensions, Push_dev_schema, Resolve_initializing]" Returned]
    run sel con flag
  have 1: "Drop_database \<in> set
        [Client_selected local_pool, Client_connect, On_error 0,
         Logger_info ''---- DROPPING TABLES SCHEMA(public) ----'', Drop_database,
         Logger_info ''---- DROPPED TABLES ----'',
         Create_extensions, Push_dev_schema, Resolve_initializing]"
    by blast
  from drop_database_gate [of 1 sample_world ?env 0 sample_adapter "\<lparr>hotReload = True\<rparr>"
      "connected_adapter local_pool"
      "[Client_selected local_pool, Client_connect, On_error 0,
        Create_extensions, Push_dev_schema, Resolve_initializing]" Returned]
    hot hot_flag
  have 2: "Drop_database \<notin> set
        [Client_selected local_pool, Client_connect, On_error 0,
         Create_extensions, Push_dev_schema, Resolve_initializing]"
    by blast
  from run hot 1 2 show ?thesis by blast
qed

text \<open>
  A call with \<open>hotReload\<close> false and \<^verbatim>\<open>PAYLOAD_DROP_DATABASE\<close> set to
  \<^verbatim>\<open>true\<close> in which the server refuses the connection: the call ends in the fatal
  path and \<open>dropDatabase\<close> is not called.
\<close>

theorem drop_database_needs_connection_counterexample:
  "\<not> hotReload \<lparr>hotReload = False\<rparr>
   \<and> PAYLOAD_DROP_DATABASE (sample_env\<lparr>PAYLOAD_DROP_DATABASE := Some ''true''\<rparr>) = Some ''true''
   \<and> connect 1 (sample_world\<lparr>client_connect := always_refused\<rparr>)
        (sample_env\<lparr>PAYLOAD_DROP_DATABASE := Some ''true''\<rparr>) 0 sample_adapter
        \<lparr>hotReload = False\<rparr>
     = Some (sample_adapter\<lparr>schema := assemble_schema sample_adapter\<rparr>,
         [Client_selected local_pool, Client_connect,
          Logger_error refused
            ''Error: cannot connect to Postgres. Details: connect ECONNREFUSED 127.0.0.1:5432'',
          Reject_initializing, Process_exit 1],
         Exited 1)"
  by (simp add: connect_defs sample_defs refused_no_match del: database_does_not_exist.simps)


end
